theory Spec2Isabelle
  imports Main
begin

section \<open>Data model (shared/types/module.ts)\<close>

text \<open>
  The \<open>unknown\<close> payload of an event or message is opaque to the core: it is only
  passed on. It is represented by a string.
\<close>

type_synonym payload = string

record NotifyPayload =
  userId :: string
  title :: string
  body :: string
  channel :: "string option"
  meta :: "(string \<times> string) list option"

datatype TimerAction =
    Notify NotifyPayload
  | Event string payload
  | Message string payload

datatype TimerStatus = Pending | Fired | Cancelled | Failed

text \<open>
  \<open>fireAt\<close> is a string in the source: the ISO rendering of an instant, or
  \<open>cron:<expr>\<close>. An ISO string is represented by the instant it renders (epoch
  milliseconds), the \<open>cron:\<close> form by its expression.
\<close>

datatype FireAt = AtMillis int | CronSchedule string

record TimerEntry =
  entry_id :: string
  label :: string
  action :: TimerAction
  status :: TimerStatus
  fireAt :: FireAt
  createdAt :: int

text \<open>
  Every failure of the source is a thrown \<open>Error\<close> or a rejected promise. The
  constructors name them as the specification does:
  \<^item> \<open>SchedulerUnavailable\<close>: \<open>Error('Scheduler: Redis unavailable')\<close>;
  \<^item> \<open>InvalidSchedule\<close>: \<open>Error('TimerService.at: target DateTime is in the past ...')\<close>;
  \<^item> \<open>TimerNotFound\<close>: \<open>Error('TimerService: no timer found with id ...')\<close>;
  \<^item> \<open>PersistenceFailure\<close>: the rejection of \<open>db.notification.create\<close>;
  \<^item> \<open>HandlerFailure m\<close>: the rejection of a channel handler, with its message;
  \<^item> \<open>ListenerFailure m\<close>: an exception thrown by a listener of the bus;
  \<^item> \<open>UnhandledError\<close>: what the emitter throws for the event \<open>error\<close> when it has no
    listener.
\<close>

datatype error =
    SchedulerUnavailable
  | InvalidSchedule
  | TimerNotFound
  | PersistenceFailure
  | HandlerFailure string
  | ListenerFailure string
  | UnhandledError

section \<open>Job scheduler (core/services/scheduler.ts)\<close>

text \<open>
  A \<open>JobFn\<close> is a closure in the source. Three closures are ever handed to the
  scheduler by the core; each is represented by a constructor holding the variables
  it captures:
  \<^item> \<open>AfterFn id action\<close>: the closure built by \<open>TimerService.after\<close>;
  \<^item> \<open>CronFn id action\<close>: the closure built by \<open>TimerService.cron\<close>;
  \<^item> \<open>SendFn payload\<close>: the closure built by \<open>NotificationService.schedule\<close>.
\<close>

datatype JobFn =
    AfterFn string TimerAction
  | CronFn string TimerAction
  | SendFn NotifyPayload

datatype JobType = Cron | Delayed | Repeating

record SchedulerJob =
  sj_id :: string
  sj_name :: string
  sj_type :: JobType

text \<open>
  The BullMQ queue, as far as the scheduler uses it. \<open>queue.add(name, data, opts)\<close>
  stores a job; with \<open>opts.jobId\<close> the job is stored under that id, otherwise under
  an id the broker assigns. \<open>queue.getJob(id)\<close> looks a job up by its id, and
  \<open>job.remove()\<close> deletes it. The broker is taken to answer every call; what BullMQ
  itself checks in an id or in the options is not part of the model.
\<close>

datatype JobsOptions =
    DelayOpts int string
  | RepeatPattern string
  | RepeatEvery int

record BullJob =
  job_id :: "string option"
  job_name :: string
  job_opts :: JobsOptions

type_synonym Queue = "string \<rightharpoonup> BullJob"

definition Queue_add :: "Queue \<Rightarrow> string \<Rightarrow> JobsOptions \<Rightarrow> string \<Rightarrow> BullJob \<times> Queue" where
  "Queue_add q name opts assigned =
     (let i = (case opts of DelayOpts d jobId \<Rightarrow> jobId | RepeatPattern p \<Rightarrow> assigned
                 | RepeatEvery e \<Rightarrow> assigned);
          job = \<lparr>job_id = Some i, job_name = name, job_opts = opts\<rparr>
      in (job, q(i \<mapsto> job)))"

definition Queue_getJob :: "Queue \<Rightarrow> string \<Rightarrow> BullJob option" where
  "Queue_getJob q jobId = q jobId"

definition Job_remove :: "Queue \<Rightarrow> string \<Rightarrow> Queue" where
  "Job_remove q jobId = q(jobId := None)"

record Scheduler =
  queue :: "Queue option"
  ready :: bool
  jobs :: "string \<rightharpoonup> SchedulerJob"
  handlers :: "string \<rightharpoonup> JobFn"
  console :: "string list"

text \<open>
  The constructor calls \<open>_connect\<close>, whose \<open>try\<close> block creates the queue, then the
  worker, then sets \<open>_ready\<close>. Either constructor can throw; the \<open>catch\<close> logs a
  warning and leaves \<open>_ready\<close> false. The queue is durable: \<open>held\<close> is what the broker
  holds for it when the process starts. The bookkeeping and the handlers are in memory and
  start empty.
\<close>

datatype connect_outcome = Connected | QueueThrows | WorkerThrows

definition Scheduler_new :: "connect_outcome \<Rightarrow> Queue \<Rightarrow> Scheduler" where
  "Scheduler_new outcome held =
     (let s0 = \<lparr>queue = None, ready = False, jobs = Map.empty, handlers = Map.empty,
                console = []\<rparr>
      in case outcome of
           Connected \<Rightarrow>
             s0\<lparr>queue := Some held, ready := True,
                console := [''[Scheduler] Connected to Redis'']\<rparr>
         | QueueThrows \<Rightarrow>
             s0\<lparr>console := [''[Scheduler] Could not connect to Redis - scheduling disabled'']\<rparr>
         | WorkerThrows \<Rightarrow>
             s0\<lparr>queue := Some held,
                console := [''[Scheduler] Could not connect to Redis - scheduling disabled'']\<rparr>)"

definition isReady :: "Scheduler \<Rightarrow> bool" where
  "isReady s = (ready s \<and> queue s \<noteq> None)"

text \<open>Decimal rendering of \<open>Date.now()\<close>, as the template string does.\<close>

definition digit :: "nat \<Rightarrow> char" where
  "digit n = ''0123456789'' ! n"

fun show_nat :: "nat \<Rightarrow> string" where
  "show_nat n = (if n < 10 then [digit n] else show_nat (n div 10) @ [digit (n mod 10)])"

declare show_nat.simps [simp del]

text \<open>
  \<open>add\<close> returns nothing. The bookkeeping entry is written in the continuation of
  \<open>queue.add\<close>, under the id the broker assigned (\<open>assigned\<close>), if that id is truthy.
\<close>

definition Scheduler_add :: "Scheduler \<Rightarrow> string \<Rightarrow> string \<Rightarrow> JobFn \<Rightarrow> string \<Rightarrow> Scheduler" where
  "Scheduler_add s name cron fn assigned =
     (if \<not> isReady s
      then s\<lparr>console := console s @ [''[Scheduler] skip add - Redis unavailable'']\<rparr>
      else
        let (job, q') = Queue_add (the (queue s)) name (RepeatPattern cron) assigned;
            s1 = s\<lparr>handlers := (handlers s)(name \<mapsto> fn), queue := Some q'\<rparr>
        in case job_id job of
             None \<Rightarrow> s1
           | Some i \<Rightarrow>
               if i = [] then s1
               else s1\<lparr>jobs := (jobs s1)(i \<mapsto> \<lparr>sj_id = i, sj_name = name, sj_type = Cron\<rparr>)\<rparr>)"

definition Scheduler_addDelayed ::
  "Scheduler \<Rightarrow> string \<Rightarrow> int \<Rightarrow> JobFn \<Rightarrow> nat \<Rightarrow> error + (string \<times> Scheduler)" where
  "Scheduler_addDelayed s name delay fn now =
     (if \<not> isReady s then Inl SchedulerUnavailable
      else
        let (job, q') = Queue_add (the (queue s)) name
                          (DelayOpts delay (name @ ''-'' @ show_nat now)) [];
            i = (case job_id job of None \<Rightarrow> name | Some j \<Rightarrow> j)
        in Inr (i, s\<lparr>handlers := (handlers s)(name \<mapsto> fn), queue := Some q',
                     jobs := (jobs s)(i \<mapsto> \<lparr>sj_id = i, sj_name = name, sj_type = Delayed\<rparr>)\<rparr>))"

definition Scheduler_addRepeating ::
  "Scheduler \<Rightarrow> string \<Rightarrow> int \<Rightarrow> JobFn \<Rightarrow> string \<Rightarrow> error + (string \<times> Scheduler)" where
  "Scheduler_addRepeating s name every fn assigned =
     (if \<not> isReady s then Inl SchedulerUnavailable
      else
        let (job, q') = Queue_add (the (queue s)) name (RepeatEvery every) assigned;
            i = (case job_id job of None \<Rightarrow> name | Some j \<Rightarrow> j)
        in Inr (i, s\<lparr>handlers := (handlers s)(name \<mapsto> fn), queue := Some q',
                     jobs := (jobs s)(i \<mapsto> \<lparr>sj_id = i, sj_name = name, sj_type = Repeating\<rparr>)\<rparr>))"

definition Scheduler_remove :: "Scheduler \<Rightarrow> string \<Rightarrow> Scheduler" where
  "Scheduler_remove s jobId =
     (if \<not> isReady s then s
      else
        let q = the (queue s);
            q' = (case Queue_getJob q jobId of None \<Rightarrow> q | Some job \<Rightarrow> Job_remove q jobId)
        in s\<lparr>queue := Some q', jobs := (jobs s)(jobId := None)\<rparr>)"

section \<open>Event bus (core/services/event-bus.ts)\<close>

text \<open>
  The bus delegates to a Node \<open>EventEmitter\<close>. The emitter keeps, for each event
  name, the listeners in the order they were added; \<open>once\<close> adds a wrapper that
  removes itself before it calls its target; \<open>off\<close> removes the most recently added
  instance of a handler. \<open>emit\<close> calls a copy of the listener array in order, with no
  \<open>try\<close> around a call: a listener that throws ends the emit, and the exception leaves
  \<open>emit\<close>. For the event \<open>error\<close> with no listener \<open>emit\<close> throws. The bus adds no
  \<open>try\<close> of its own.

  A handler is a function reference, compared by identity, with what a call of it does:
  it returns (a promise it returns is not awaited) or it throws. Its own work is outside
  the core and only the call is recorded.
\<close>

datatype EventHandler = Fn nat "payload \<Rightarrow> error + unit"

fun invoke :: "EventHandler \<Rightarrow> payload \<Rightarrow> error + unit" where
  "invoke (Fn n f) p = f p"

record Listener =
  listener :: EventHandler
  is_once :: bool

record EventBus =
  emitter :: "string \<Rightarrow> Listener list"

definition EventBus_new :: EventBus where
  "EventBus_new = \<lparr>emitter = (\<lambda>ev. [])\<rparr>"

definition EventBus_on :: "EventBus \<Rightarrow> string \<Rightarrow> EventHandler \<Rightarrow> EventBus" where
  "EventBus_on b ev h =
     b\<lparr>emitter := (emitter b)(ev := emitter b ev @ [\<lparr>listener = h, is_once = False\<rparr>])\<rparr>"

definition EventBus_once :: "EventBus \<Rightarrow> string \<Rightarrow> EventHandler \<Rightarrow> EventBus" where
  "EventBus_once b ev h =
     b\<lparr>emitter := (emitter b)(ev := emitter b ev @ [\<lparr>listener = h, is_once = True\<rparr>])\<rparr>"

fun remove_first :: "EventHandler \<Rightarrow> Listener list \<Rightarrow> Listener list" where
  "remove_first h [] = []"
| "remove_first h (l # ls) = (if listener l = h then ls else l # remove_first h ls)"

definition EventBus_off :: "EventBus \<Rightarrow> string \<Rightarrow> EventHandler \<Rightarrow> EventBus" where
  "EventBus_off b ev h =
     b\<lparr>emitter := (emitter b)(ev := rev (remove_first h (rev (emitter b ev))))\<rparr>"

definition unwrap_once :: "EventBus \<Rightarrow> string \<Rightarrow> Listener \<Rightarrow> EventBus" where
  "unwrap_once b ev l =
     (if is_once l then b\<lparr>emitter := (emitter b)(ev := remove1 l (emitter b ev))\<rparr> else b)"

fun call_listeners ::
  "Listener list \<Rightarrow> string \<Rightarrow> payload \<Rightarrow> EventBus \<times> (EventHandler \<times> payload) list
     \<Rightarrow> (error + unit) \<times> EventBus \<times> (EventHandler \<times> payload) list" where
  "call_listeners [] ev p (b, calls) = (Inr (), b, calls)"
| "call_listeners (l # ls) ev p (b, calls) =
     (case invoke (listener l) p of
        Inl e \<Rightarrow> (Inl e, unwrap_once b ev l, calls @ [(listener l, p)])
      | Inr u \<Rightarrow> call_listeners ls ev p (unwrap_once b ev l, calls @ [(listener l, p)]))"

definition EventBus_emit ::
  "EventBus \<Rightarrow> string \<Rightarrow> payload
     \<Rightarrow> (error + unit) \<times> EventBus \<times> (EventHandler \<times> payload) list" where
  "EventBus_emit b ev p =
     (if ev = ''error'' \<and> emitter b ev = [] then (Inl UnhandledError, b, [])
      else call_listeners (emitter b ev) ev p (b, []))"

section \<open>Collaborators of the notification service\<close>

text \<open>
  The relational store: the rows of the notification table, and which writes it
  accepts (a write it does not accept is a rejected \<open>create\<close>).
\<close>

record NotificationData =
  n_userId :: string
  n_title :: string
  n_body :: string
  n_channel :: string
  n_meta :: "(string \<times> string) list"

record PrismaClient =
  notification :: "NotificationData list"
  accepts :: "NotificationData \<Rightarrow> bool"

definition notification_create :: "PrismaClient \<Rightarrow> NotificationData \<Rightarrow> error + PrismaClient" where
  "notification_create d row =
     (if accepts d row then Inr (d\<lparr>notification := notification d @ [row]\<rparr>)
      else Inl PersistenceFailure)"

text \<open>
  The realtime sink: \<open>io.to(room).emit(event, message)\<close> hands the message to the
  transport and returns; it reports nothing about delivery.
\<close>

datatype SocketServer = SocketServer

type_synonym ChannelHandler = "NotifyPayload \<Rightarrow> error + unit"

text \<open>The calls the core makes on its collaborators, in the order it makes them.\<close>

datatype effect =
    DbCreate NotificationData
  | SocketEmit string string "string \<times> string \<times> string \<times> (string \<times> string) list option"
  | ChannelCall string NotifyPayload
  | ListenerCall EventHandler string payload

record NotificationService =
  channels :: "string \<rightharpoonup> ChannelHandler"
  io :: "SocketServer option"

record TimerService =
  entries :: "string \<rightharpoonup> TimerEntry"

text \<open>
  The services are built once (core/services/index.ts) and share one scheduler, one
  store and one bus; the state of the core is the state of all of them.
\<close>

record CoreServices =
  db :: PrismaClient
  events :: EventBus
  scheduler :: Scheduler
  timer :: TimerService
  notify :: NotificationService
  trace :: "effect list"

definition buildCoreServices ::
  "connect_outcome \<Rightarrow> Queue \<Rightarrow> (NotificationData \<Rightarrow> bool) \<Rightarrow> CoreServices" where
  "buildCoreServices outcome held acc =
     \<lparr>db = \<lparr>notification = [], accepts = acc\<rparr>,
      events = EventBus_new,
      scheduler = Scheduler_new outcome held,
      timer = \<lparr>entries = Map.empty\<rparr>,
      notify = \<lparr>channels = Map.empty, io = None\<rparr>,
      trace = []\<rparr>"

section \<open>Notification service (core/services/notifications.ts)\<close>

definition attachSocket :: "CoreServices \<Rightarrow> SocketServer \<Rightarrow> CoreServices" where
  "attachSocket cs sock = cs\<lparr>notify := (notify cs)\<lparr>io := Some sock\<rparr>\<rparr>"

definition registerChannel :: "CoreServices \<Rightarrow> string \<Rightarrow> ChannelHandler \<Rightarrow> CoreServices" where
  "registerChannel cs name handler =
     cs\<lparr>notify := (notify cs)\<lparr>channels := (channels (notify cs))(name \<mapsto> handler)\<rparr>\<rparr>"

text \<open>The \<open>data\<close> object of the \<open>create\<close> call, with the defaults the source applies.\<close>

definition channel_of :: "NotifyPayload \<Rightarrow> string" where
  "channel_of payload = (case channel payload of None \<Rightarrow> ''default'' | Some c \<Rightarrow> c)"

definition data_of :: "NotifyPayload \<Rightarrow> NotificationData" where
  "data_of payload =
     \<lparr>n_userId = userId payload, n_title = title payload, n_body = body payload,
      n_channel = channel_of payload,
      n_meta = (case meta payload of None \<Rightarrow> [] | Some m \<Rightarrow> m)\<rparr>"

definition push_of :: "NotifyPayload \<Rightarrow> effect" where
  "push_of payload =
     SocketEmit (''user:'' @ userId payload) ''notification''
       (title payload, body payload, channel_of payload, meta payload)"

text \<open>
  The result of an asynchronous method is the settlement of its promise (\<open>Inl\<close> a
  rejection) together with the state it leaves.
\<close>

definition NotificationService_send ::
  "CoreServices \<Rightarrow> NotifyPayload \<Rightarrow> (error + unit) \<times> CoreServices" where
  "NotificationService_send cs payload =
     (let cs1 = cs\<lparr>trace := trace cs @ [DbCreate (data_of payload)]\<rparr>
      in case notification_create (db cs1) (data_of payload) of
           Inl e \<Rightarrow> (Inl e, cs1)
         | Inr db' \<Rightarrow>
             (let cs2 = cs1\<lparr>db := db'\<rparr>;
                  cs3 = (case io (notify cs2) of
                           None \<Rightarrow> cs2
                         | Some sock \<Rightarrow> cs2\<lparr>trace := trace cs2 @ [push_of payload]\<rparr>)
              in (case channels (notify cs3) (channel_of payload) of
                    None \<Rightarrow> (Inr (), cs3)
                  | Some handler \<Rightarrow>
                      (handler payload,
                       cs3\<lparr>trace := trace cs3 @ [ChannelCall (channel_of payload) payload]\<rparr>))))"

definition NotificationService_schedule ::
  "CoreServices \<Rightarrow> NotifyPayload \<Rightarrow> int \<Rightarrow> nat \<Rightarrow> (error + string) \<times> CoreServices" where
  "NotificationService_schedule cs payload at_ms now =
     (let delay = at_ms - int now
      in if delay \<le> 0
         then (case NotificationService_send cs payload of
                 (Inl e, cs') \<Rightarrow> (Inl e, cs')
               | (Inr u, cs') \<Rightarrow> (Inr ''immediate'', cs'))
         else (case Scheduler_addDelayed (scheduler cs)
                      (''notify:'' @ userId payload @ '':'' @ show_nat now) delay
                      (SendFn payload) now of
                 Inl e \<Rightarrow> (Inl e, cs)
               | Inr (jobId, s') \<Rightarrow> (Inr jobId, cs\<lparr>scheduler := s'\<rparr>)))"

definition NotificationService_cancel ::
  "CoreServices \<Rightarrow> string \<Rightarrow> (error + unit) \<times> CoreServices" where
  "NotificationService_cancel cs jobId =
     (Inr (), cs\<lparr>scheduler := Scheduler_remove (scheduler cs) jobId\<rparr>)"

section \<open>Timer service (core/services/timer.ts)\<close>

definition emit :: "CoreServices \<Rightarrow> string \<Rightarrow> payload \<Rightarrow> (error + unit) \<times> CoreServices" where
  "emit cs ev p =
     (case EventBus_emit (events cs) ev p of
        (r, b, calls) \<Rightarrow>
          (r, cs\<lparr>events := b,
                 trace := trace cs @ map (\<lambda>(h, x). ListenerCall h ev x) calls\<rparr>))"

definition dispatch :: "CoreServices \<Rightarrow> TimerAction \<Rightarrow> (error + unit) \<times> CoreServices" where
  "dispatch cs a =
     (case a of
        Notify payload \<Rightarrow> NotificationService_send cs payload
      | Event ev p \<Rightarrow> emit cs ev p
      | Message ch p \<Rightarrow> emit cs (''msg:'' @ ch) p)"

definition markStatus :: "CoreServices \<Rightarrow> string \<Rightarrow> TimerStatus \<Rightarrow> CoreServices" where
  "markStatus cs i st =
     (case entries (timer cs) i of
        None \<Rightarrow> cs
      | Some entry \<Rightarrow>
          cs\<lparr>timer := (timer cs)\<lparr>entries := (entries (timer cs))(i \<mapsto> entry\<lparr>status := st\<rparr>)\<rparr>\<rparr>)"

text \<open>
  \<open>uuid\<close> is the value \<open>randomUUID()\<close> returns and \<open>now\<close> the reading of the clock
  during the call.
\<close>

definition TimerService_after ::
  "CoreServices \<Rightarrow> string \<Rightarrow> int \<Rightarrow> TimerAction \<Rightarrow> string \<Rightarrow> nat
     \<Rightarrow> (error + string) \<times> CoreServices" where
  "TimerService_after cs lbl delayMs a uuid now =
     (let entry = \<lparr>entry_id = uuid, label = lbl, action = a, status = Pending,
                   fireAt = AtMillis (int now + delayMs), createdAt = int now\<rparr>;
          cs1 = cs\<lparr>timer := (timer cs)\<lparr>entries := (entries (timer cs))(uuid \<mapsto> entry)\<rparr>\<rparr>
      in case Scheduler_addDelayed (scheduler cs1) (''timer:'' @ uuid) delayMs
                (AfterFn uuid a) now of
           Inl e \<Rightarrow> (Inl e, cs1)
         | Inr (jobId, s') \<Rightarrow> (Inr uuid, cs1\<lparr>scheduler := s'\<rparr>))"

definition TimerService_at ::
  "CoreServices \<Rightarrow> string \<Rightarrow> int \<Rightarrow> TimerAction \<Rightarrow> string \<Rightarrow> nat
     \<Rightarrow> (error + string) \<times> CoreServices" where
  "TimerService_at cs lbl dt a uuid now =
     (let delay = dt - int now
      in if delay < 0 then (Inl InvalidSchedule, cs)
         else TimerService_after cs lbl delay a uuid now)"

definition TimerService_cron ::
  "CoreServices \<Rightarrow> string \<Rightarrow> string \<Rightarrow> TimerAction \<Rightarrow> string \<Rightarrow> nat \<Rightarrow> string
     \<Rightarrow> (error + string) \<times> CoreServices" where
  "TimerService_cron cs lbl cronExpr a uuid now assigned =
     (let entry = \<lparr>entry_id = uuid, label = lbl, action = a, status = Pending,
                   fireAt = CronSchedule cronExpr, createdAt = int now\<rparr>;
          cs1 = cs\<lparr>timer := (timer cs)\<lparr>entries := (entries (timer cs))(uuid \<mapsto> entry)\<rparr>\<rparr>
      in (Inr uuid,
          cs1\<lparr>scheduler :=
                Scheduler_add (scheduler cs1) (''timer:'' @ uuid) cronExpr (CronFn uuid a) assigned\<rparr>))"

definition TimerService_cancel ::
  "CoreServices \<Rightarrow> string \<Rightarrow> (error + unit) \<times> CoreServices" where
  "TimerService_cancel cs timerId =
     (case entries (timer cs) timerId of
        None \<Rightarrow> (Inl TimerNotFound, cs)
      | Some entry \<Rightarrow>
          (Inr (),
           markStatus (cs\<lparr>scheduler := Scheduler_remove (scheduler cs) (''timer:'' @ timerId)\<rparr>)
             timerId Cancelled))"

section \<open>Firing a job\<close>

text \<open>The bodies of the three closures.\<close>

definition run_JobFn :: "CoreServices \<Rightarrow> JobFn \<Rightarrow> (error + unit) \<times> CoreServices" where
  "run_JobFn cs fn =
     (case fn of
        AfterFn i a \<Rightarrow> dispatch (markStatus cs i Fired) a
      | CronFn i a \<Rightarrow>
          (case dispatch (markStatus cs i Fired) a of
             (Inl e, cs') \<Rightarrow> (Inl e, cs')
           | (Inr u, cs') \<Rightarrow> (Inr (), markStatus cs' i Pending))
      | SendFn payload \<Rightarrow> NotificationService_send cs payload)"

text \<open>The processor the scheduler gives its worker (in \<open>_connect\<close>).\<close>

definition Worker_process :: "CoreServices \<Rightarrow> BullJob \<Rightarrow> (error + unit) \<times> CoreServices" where
  "Worker_process cs job =
     (case handlers (scheduler cs) (job_name job) of
        None \<Rightarrow>
          (Inr (),
           cs\<lparr>scheduler := (scheduler cs)
                 \<lparr>console := console (scheduler cs) @ [''[Scheduler] No handler for job'']\<rparr>\<rparr>)
      | Some handler \<Rightarrow> run_JobFn cs handler)"

text \<open>
  The worker's \<open>failed\<close> listener: a rejected processor is logged, nothing else.
\<close>

definition Worker_on_failed :: "(error + unit) \<times> CoreServices \<Rightarrow> CoreServices" where
  "Worker_on_failed rc =
     (case fst rc of
        Inr u \<Rightarrow> snd rc
      | Inl e \<Rightarrow>
          (snd rc)\<lparr>scheduler := (scheduler (snd rc))
                    \<lparr>console := console (scheduler (snd rc)) @ [''[Scheduler] Job failed'']\<rparr>\<rparr>)"

text \<open>
  The broker hands a job that the queue holds to the worker when the job is due. A
  delayed job is consumed by that; a repeating one stays.
\<close>

definition Broker_take :: "CoreServices \<Rightarrow> Queue \<Rightarrow> string \<Rightarrow> BullJob \<Rightarrow> CoreServices" where
  "Broker_take cs q jobId job =
     cs\<lparr>scheduler := (scheduler cs)
           \<lparr>queue := Some (case job_opts job of
                              DelayOpts d j \<Rightarrow> Job_remove q jobId
                            | RepeatPattern p \<Rightarrow> q
                            | RepeatEvery e \<Rightarrow> q)\<rparr>\<rparr>"

definition Broker_deliver :: "CoreServices \<Rightarrow> string \<Rightarrow> CoreServices" where
  "Broker_deliver cs jobId =
     (case queue (scheduler cs) of
        None \<Rightarrow> cs
      | Some q \<Rightarrow>
          (case Queue_getJob q jobId of
             None \<Rightarrow> cs
           | Some job \<Rightarrow> Worker_on_failed (Worker_process (Broker_take cs q jobId job) job)))"

section \<open>Runs of the core\<close>

text \<open>
  The calls the rest of the system makes on the core (the timer and notification
  services and the bus), and the delivery of a queued job by the broker. A run is a list
  of calls performed in order on freshly built services.
\<close>

datatype call =
    After string int TimerAction string nat
  | At string int TimerAction string nat
  | CronCall string string TimerAction string nat string
  | Cancel string
  | Send NotifyPayload
  | Schedule NotifyPayload int nat
  | CancelJob string
  | Emit string payload
  | Deliver string

fun perform :: "CoreServices \<Rightarrow> call \<Rightarrow> CoreServices" where
  "perform cs (After lbl d a uuid now) = snd (TimerService_after cs lbl d a uuid now)"
| "perform cs (At lbl dt a uuid now) = snd (TimerService_at cs lbl dt a uuid now)"
| "perform cs (CronCall lbl c a uuid now assigned) = snd (TimerService_cron cs lbl c a uuid now assigned)"
| "perform cs (Cancel i) = snd (TimerService_cancel cs i)"
| "perform cs (Send p) = snd (NotificationService_send cs p)"
| "perform cs (Schedule p at_ms now) = snd (NotificationService_schedule cs p at_ms now)"
| "perform cs (CancelJob j) = snd (NotificationService_cancel cs j)"
| "perform cs (Emit ev p) = snd (emit cs ev p)"
| "perform cs (Deliver j) = Broker_deliver cs j"

text \<open>
  The timer ids that the scheduling calls of a run were given, each with
  the action supplied with it.
\<close>

fun supplied :: "call list \<Rightarrow> (string \<times> TimerAction) list" where
  "supplied [] = []"
| "supplied (After lbl d a uuid now # cs) = (uuid, a) # supplied cs"
| "supplied (At lbl dt a uuid now # cs) = (uuid, a) # supplied cs"
| "supplied (CronCall lbl c a uuid now assigned # cs) = (uuid, a) # supplied cs"
| "supplied (c # cs) = supplied cs"

text \<open>
  What the timer service records as the action of timer \<open>i\<close>, and the closure the
  scheduler holds for it.
\<close>

definition timer_action :: "CoreServices \<Rightarrow> string \<Rightarrow> TimerAction option" where
  "timer_action cs i = map_option action (entries (timer cs) i)"

definition timer_closure :: "CoreServices \<Rightarrow> string \<Rightarrow> JobFn option" where
  "timer_closure cs i = handlers (scheduler cs) (''timer:'' @ i)"

definition closure_of :: "string \<Rightarrow> TimerAction \<Rightarrow> JobFn \<Rightarrow> bool" where
  "closure_of i a fn = (fn = AfterFn i a \<or> fn = CronFn i a)"

text \<open>
  Every registered timer closure holds the action of its entry, and a scheduler that is
  not ready holds none.
\<close>

definition consistent :: "CoreServices \<Rightarrow> bool" where
  "consistent cs =
     ((\<forall>i fn. timer_closure cs i = Some fn \<longrightarrow>
          (\<exists>a. timer_action cs i = Some a \<and> closure_of i a fn))
      \<and> (\<not> isReady (scheduler cs) \<longrightarrow> (\<forall>i. timer_closure cs i = None)))"

text \<open>
  From one state to another, every entry is still there and differs from what it was in
  its status at most.
\<close>

definition status_step :: "CoreServices \<Rightarrow> CoreServices \<Rightarrow> bool" where
  "status_step cs cs' =
     (\<forall>j e. entries (timer cs) j = Some e \<longrightarrow>
        (\<exists>st. entries (timer cs') j = Some (e\<lparr>status := st\<rparr>)))"

section \<open>Example states\<close>

text \<open>
  A payload, two channel handlers, listeners that return and listeners that throw, and
  freshly built sets of services (one whose store accepts every write, one whose store
  rejects every write, one whose scheduler could not connect), used to run the
  definitions on concrete inputs.
\<close>

definition example_payload :: NotifyPayload where
  "example_payload = \<lparr>userId = ''u1'', title = ''Hi'', body = ''there'', channel = None, meta = None\<rparr>"

definition failing_handler :: ChannelHandler where
  "failing_handler payload = Inl (HandlerFailure ''mail relay down'')"

definition logging_handler :: ChannelHandler where
  "logging_handler payload = Inr ()"

definition quiet_listener :: "nat \<Rightarrow> EventHandler" where
  "quiet_listener n = Fn n (\<lambda>p. Inr ())"

definition throwing_listener :: "nat \<Rightarrow> EventHandler" where
  "throwing_listener n = Fn n (\<lambda>p. Inl (ListenerFailure ''boom''))"

definition example_services :: CoreServices where
  "example_services = buildCoreServices Connected Map.empty (\<lambda>row. True)"

definition offline_store_services :: CoreServices where
  "offline_store_services = buildCoreServices Connected Map.empty (\<lambda>row. False)"

definition degraded_services :: CoreServices where
  "degraded_services = buildCoreServices QueueThrows Map.empty (\<lambda>row. True)"

lemmas eval_defs =
  TimerService_after_def TimerService_cancel_def TimerService_cron_def TimerService_at_def
  Scheduler_addDelayed_def Scheduler_add_def
  Scheduler_remove_def Queue_add_def Queue_getJob_def Job_remove_def markStatus_def
  Broker_deliver_def Broker_take_def Worker_on_failed_def Worker_process_def run_JobFn_def dispatch_def
  NotificationService_send_def notification_create_def registerChannel_def attachSocket_def
  buildCoreServices_def Scheduler_new_def isReady_def EventBus_new_def
  emit_def EventBus_emit_def
  channel_of_def data_of_def push_of_def
  show_nat.simps digit_def Let_def

section \<open>Scheduler: degraded state\<close>

lemma Scheduler_new_degraded:
  "isReady (Scheduler_new outcome held) = (outcome = Connected)"
  by (cases outcome) (simp_all add: Scheduler_new_def isReady_def)

lemma handlers_new: "handlers (Scheduler_new outcome held) = Map.empty"
  by (cases outcome) (simp_all add: Scheduler_new_def)

text \<open>
  C2. A scheduler that is not ready (as one constructed while the broker is unreachable
  is) answers \<open>add\<close> by logging one warning and changing nothing else: no handler is
  registered and nothing is enqueued. It answers \<open>addDelayed\<close> with the error
  \<open>SchedulerUnavailable\<close> instead of a job id.
\<close>

theorem degraded_add_addDelayed:
  "\<not> isReady s \<Longrightarrow>
     Scheduler_add s name cron fn assigned =
       s\<lparr>console := console s @ [''[Scheduler] skip add - Redis unavailable'']\<rparr>
     \<and> handlers (Scheduler_add s name cron fn assigned) = handlers s
     \<and> queue (Scheduler_add s name cron fn assigned) = queue s
     \<and> Scheduler_addDelayed s name' delayMs fn' now = Inl SchedulerUnavailable"
  by (simp add: Scheduler_add_def Scheduler_addDelayed_def)

theorem degraded_add_addDelayed_witness:
  "\<not> isReady (Scheduler_new QueueThrows Map.empty)
   \<and> handlers (Scheduler_add (Scheduler_new QueueThrows Map.empty) ''x'' ''* * * * *''
        (CronFn ''t'' (Event ''tick'' ''{}'')) ''repeat:1'') = Map.empty
   \<and> Scheduler_addDelayed (Scheduler_new QueueThrows Map.empty) ''y'' 1000
        (AfterFn ''t'' (Event ''tick'' ''{}'')) 7 = Inl SchedulerUnavailable"
proof -
  have h: "\<not> isReady (Scheduler_new QueueThrows Map.empty)"
    by (simp add: Scheduler_new_degraded)
  have e: "handlers (Scheduler_new QueueThrows Map.empty) = Map.empty"
    by (simp add: Scheduler_new_def)
  show ?thesis
    using h e degraded_add_addDelayed [OF h, of "''x''" "''* * * * *''"
        "CronFn ''t'' (Event ''tick'' ''{}'')" "''repeat:1''" "''y''" 1000
        "AfterFn ''t'' (Event ''tick'' ''{}'')" 7]
    by simp
qed

section \<open>Scheduler: removal\<close>

lemma Scheduler_remove_not_ready: "\<not> isReady s \<Longrightarrow> Scheduler_remove s jobId = s"
  by (simp add: Scheduler_remove_def)

lemma isReady_remove: "isReady (Scheduler_remove s jobId) = isReady s"
  by (simp add: Scheduler_remove_def isReady_def Let_def)

lemma Scheduler_remove_ready:
  "isReady s \<Longrightarrow>
   Scheduler_remove s jobId =
     s\<lparr>queue := Some ((the (queue s))(jobId := None)), jobs := (jobs s)(jobId := None)\<rparr>"
  by (auto simp: Scheduler_remove_def Let_def Queue_getJob_def Job_remove_def fun_upd_idem
           split: option.splits)

lemma handlers_remove [simp]: "handlers (Scheduler_remove s j) = handlers s"
  by (simp add: Scheduler_remove_def Let_def)

text \<open>
  C8. \<open>remove\<close> is idempotent: removing a job twice leaves the state that removing it
  once leaves. In the degraded state it changes nothing. For a job id the queue does not
  hold (never issued, already executed, already removed) it changes nothing but the local
  bookkeeping for that id. \<open>remove\<close> has no failing branch, so it always completes.
\<close>

theorem remove_idempotent:
  "Scheduler_remove (Scheduler_remove s j) j = Scheduler_remove s j
   \<and> (\<not> isReady s \<longrightarrow> Scheduler_remove s j = s)
   \<and> (isReady s \<and> Queue_getJob (the (queue s)) j = None \<longrightarrow>
        Scheduler_remove s j = s\<lparr>jobs := (jobs s)(j := None)\<rparr>)"
proof (intro conjI impI)
  show "Scheduler_remove (Scheduler_remove s j) j = Scheduler_remove s j"
  proof (cases "isReady s")
    case True
    then have r: "isReady (Scheduler_remove s j)" by (simp add: isReady_remove)
    show ?thesis
      by (simp add: Scheduler_remove_ready [OF r]) (simp add: Scheduler_remove_ready [OF True])
  next
    case False
    then show ?thesis by (simp add: Scheduler_remove_not_ready)
  qed
next
  assume "\<not> isReady s"
  then show "Scheduler_remove s j = s" by (rule Scheduler_remove_not_ready)
next
  assume "isReady s \<and> Queue_getJob (the (queue s)) j = None"
  then show "Scheduler_remove s j = s\<lparr>jobs := (jobs s)(j := None)\<rparr>"
    by (simp add: Scheduler_remove_def Let_def isReady_def)
qed

theorem remove_idempotent_witness:
  "\<not> isReady (Scheduler_new WorkerThrows Map.empty)
   \<and> Scheduler_remove (Scheduler_new WorkerThrows Map.empty) ''timer:a'' = Scheduler_new WorkerThrows Map.empty
   \<and> isReady (Scheduler_new Connected Map.empty)
   \<and> Queue_getJob (the (queue (Scheduler_new Connected Map.empty))) ''timer:a'' = None
   \<and> Scheduler_remove (Scheduler_new Connected Map.empty) ''timer:a''
       = (Scheduler_new Connected Map.empty)\<lparr>jobs := (jobs (Scheduler_new Connected Map.empty))(''timer:a'' := None)\<rparr>"
proof -
  have d: "\<not> isReady (Scheduler_new WorkerThrows Map.empty)" by (simp add: Scheduler_new_degraded)
  have r: "isReady (Scheduler_new Connected Map.empty)" by (simp add: Scheduler_new_degraded)
  have u: "Queue_getJob (the (queue (Scheduler_new Connected Map.empty))) ''timer:a'' = None"
    by (simp add: Scheduler_new_def Queue_getJob_def)
  show ?thesis
    using d r u remove_idempotent [of "Scheduler_new WorkerThrows Map.empty" "''timer:a''"]
      remove_idempotent [of "Scheduler_new Connected Map.empty" "''timer:a''"]
    by simp
qed

section \<open>Notification service: send\<close>

lemma send_rejected:
  "\<not> accepts (db cs) (data_of p) \<Longrightarrow>
   NotificationService_send cs p
     = (Inl PersistenceFailure, cs\<lparr>trace := trace cs @ [DbCreate (data_of p)]\<rparr>)"
  by (simp add: NotificationService_send_def notification_create_def Let_def)

lemma send_accepted:
  "accepts (db cs) (data_of p) \<Longrightarrow>
   NotificationService_send cs p =
     ((case channels (notify cs) (channel_of p) of None \<Rightarrow> Inr () | Some h \<Rightarrow> h p),
      cs\<lparr>db := (db cs)\<lparr>notification := notification (db cs) @ [data_of p]\<rparr>,
         trace := trace cs @ [DbCreate (data_of p)]
                   @ (case io (notify cs) of None \<Rightarrow> [] | Some sock \<Rightarrow> [push_of p])
                   @ (case channels (notify cs) (channel_of p) of
                        None \<Rightarrow> [] | Some h \<Rightarrow> [ChannelCall (channel_of p) p])\<rparr>)"
  by (simp add: NotificationService_send_def notification_create_def Let_def
           split: option.splits)

text \<open>
  C4. \<open>send\<close> calls its collaborators in a fixed order: the store first, then the
  realtime sink (when one is attached), then the handler registered for the channel (when
  there is one). If the store rejects the write, \<open>send\<close> fails with that error, and
  neither the sink nor the handler is called; nothing but the record of the attempted write
  changes.
\<close>

theorem send_three_effects:
  "(\<not> accepts (db cs) (data_of p) \<longrightarrow>
      NotificationService_send cs p
        = (Inl PersistenceFailure, cs\<lparr>trace := trace cs @ [DbCreate (data_of p)]\<rparr>))
   \<and> (accepts (db cs) (data_of p) \<longrightarrow>
        trace (snd (NotificationService_send cs p))
          = trace cs @ [DbCreate (data_of p)]
              @ (case io (notify cs) of None \<Rightarrow> [] | Some sock \<Rightarrow> [push_of p])
              @ (case channels (notify cs) (channel_of p) of
                   None \<Rightarrow> [] | Some h \<Rightarrow> [ChannelCall (channel_of p) p])
        \<and> notification (db (snd (NotificationService_send cs p)))
            = notification (db cs) @ [data_of p])"
  by (simp add: send_rejected send_accepted)

theorem send_three_effects_witness:
  "\<not> accepts (db offline_store_services) (data_of example_payload)
   \<and> NotificationService_send offline_store_services example_payload
       = (Inl PersistenceFailure,
          offline_store_services\<lparr>trace := [DbCreate (data_of example_payload)]\<rparr>)
   \<and> accepts (db (attachSocket (registerChannel example_services ''default'' logging_handler)
         SocketServer)) (data_of example_payload)
   \<and> trace (snd (NotificationService_send
         (attachSocket (registerChannel example_services ''default'' logging_handler)
            SocketServer) example_payload))
       = [DbCreate (data_of example_payload), push_of example_payload,
          ChannelCall ''default'' example_payload]"
  using send_three_effects [of offline_store_services example_payload]
    send_three_effects [of "attachSocket (registerChannel example_services ''default''
      logging_handler) SocketServer" example_payload]
  by (simp add: offline_store_services_def example_services_def buildCoreServices_def
        attachSocket_def registerChannel_def channel_of_def example_payload_def)

text \<open>
  C3, as the claim states it, fails: with a store that accepts the write and a channel
  handler that rejects, \<open>send\<close> rejects with the handler's error although the row has
  been stored.
\<close>

theorem send_handler_failure_surfaces:
  "fst (NotificationService_send
          (registerChannel example_services ''default'' failing_handler) example_payload)
     = Inl (HandlerFailure ''mail relay down'')
   \<and> notification (db (snd (NotificationService_send
          (registerChannel example_services ''default'' failing_handler) example_payload)))
     = [data_of example_payload]"
  by (simp add: NotificationService_send_def notification_create_def Let_def
        registerChannel_def example_services_def buildCoreServices_def channel_of_def
        example_payload_def failing_handler_def)

text \<open>
  C3, amended. When the store accepts the write, the result of \<open>send\<close> is the result
  of the handler registered for the channel, and success when there is none. The realtime
  push has no part in the result, whether a sink is attached or not.
\<close>

theorem send_result:
  "accepts (db cs) (data_of p) \<Longrightarrow>
   fst (NotificationService_send cs p)
     = (case channels (notify cs) (channel_of p) of None \<Rightarrow> Inr () | Some h \<Rightarrow> h p)"
  by (simp add: send_accepted)

theorem send_result_witness:
  "accepts (db example_services) (data_of example_payload)
   \<and> fst (NotificationService_send example_services example_payload) = Inr ()"
proof -
  have a: "accepts (db example_services) (data_of example_payload)"
    by (simp add: example_services_def buildCoreServices_def)
  show ?thesis
    using a send_result [OF a]
    by (simp add: example_services_def buildCoreServices_def)
qed

section \<open>What each operation leaves untouched\<close>

lemma timer_send [simp]: "timer (snd (NotificationService_send cs p)) = timer cs"
  by (simp add: NotificationService_send_def Let_def split: sum.splits option.splits)

lemma timer_emit [simp]: "timer (snd (emit cs ev p)) = timer cs"
  by (simp add: emit_def split: prod.splits)

lemma timer_dispatch [simp]: "timer (snd (dispatch cs a)) = timer cs"
  by (cases a) (simp_all add: dispatch_def)

lemma scheduler_send [simp]: "scheduler (snd (NotificationService_send cs p)) = scheduler cs"
  by (simp add: NotificationService_send_def Let_def split: sum.splits option.splits)

lemma scheduler_emit [simp]: "scheduler (snd (emit cs ev p)) = scheduler cs"
  by (simp add: emit_def split: prod.splits)

lemma scheduler_dispatch [simp]: "scheduler (snd (dispatch cs a)) = scheduler cs"
  by (cases a) (simp_all add: dispatch_def)

lemma scheduler_markStatus [simp]: "scheduler (markStatus cs i st) = scheduler cs"
  by (simp add: markStatus_def split: option.splits)

lemma timer_schedule [simp]:
  "timer (snd (NotificationService_schedule cs p at_ms now)) = timer cs"
proof (cases "at_ms - int now \<le> 0")
  case True
  obtain r cs' where d: "NotificationService_send cs p = (r, cs')"
    by (cases "NotificationService_send cs p")
  then have "timer cs' = timer cs"
    using timer_send [of cs p] by simp
  then show ?thesis
    using True d by (cases r) (simp_all add: NotificationService_schedule_def)
next
  case False
  then show ?thesis
    by (simp add: NotificationService_schedule_def Let_def split: sum.splits)
qed

lemma entries_markStatus:
  "entries (timer cs) i = Some e \<Longrightarrow>
   entries (timer (markStatus cs i st)) = (entries (timer cs))(i \<mapsto> e\<lparr>status := st\<rparr>)"
  by (simp add: markStatus_def)

lemma entries_markStatus_cases:
  "entries (timer (markStatus cs i st))
     = (case entries (timer cs) i of
          None \<Rightarrow> entries (timer cs)
        | Some e \<Rightarrow> (entries (timer cs))(i \<mapsto> e\<lparr>status := st\<rparr>))"
  by (simp add: markStatus_def split: option.splits)

lemma entries_after:
  "entries (timer (snd (TimerService_after cs lbl d a uuid now)))
     = (entries (timer cs))
         (uuid \<mapsto> \<lparr>entry_id = uuid, label = lbl, action = a, status = Pending,
                    fireAt = AtMillis (int now + d), createdAt = int now\<rparr>)"
  by (simp add: TimerService_after_def Let_def split: sum.splits prod.splits)

lemma entries_cron:
  "entries (timer (snd (TimerService_cron cs lbl c a uuid now assigned)))
     = (entries (timer cs))
         (uuid \<mapsto> \<lparr>entry_id = uuid, label = lbl, action = a, status = Pending,
                    fireAt = CronSchedule c, createdAt = int now\<rparr>)"
  by (simp add: TimerService_cron_def Let_def)

section \<open>Timer service: at\<close>

text \<open>
  C6. \<open>at\<close> with a target strictly before the clock fails with
  \<open>InvalidSchedule\<close> and leaves the whole state as it was (no entry, no job). With a
  target at or after the clock it is \<open>after\<close> with the delay \<open>target - now\<close>.
\<close>

theorem at_past_or_after:
  "(dt < int now \<longrightarrow> TimerService_at cs lbl dt a uuid now = (Inl InvalidSchedule, cs))
   \<and> (int now \<le> dt \<longrightarrow>
        TimerService_at cs lbl dt a uuid now = TimerService_after cs lbl (dt - int now) a uuid now)"
  by (simp add: TimerService_at_def Let_def)

theorem at_past_or_after_witness:
  "(4::int) < int 5
   \<and> TimerService_at example_services ''x'' 4 (Event ''ping'' ''1'') ''id1'' 5
       = (Inl InvalidSchedule, example_services)
   \<and> int 5 \<le> 5
   \<and> TimerService_at example_services ''x'' 5 (Event ''ping'' ''1'') ''id1'' 5
       = TimerService_after example_services ''x'' 0 (Event ''ping'' ''1'') ''id1'' 5"
  using at_past_or_after [of 4 5 example_services "''x''" "Event ''ping'' ''1''" "''id1''"]
    at_past_or_after [of 5 5 example_services "''x''" "Event ''ping'' ''1''" "''id1''"]
  by simp

section \<open>Timer service: cron fires\<close>

lemma cron_fire_entries:
  assumes e: "entries (timer cs) i = Some e"
  shows "entries (timer (snd (run_JobFn cs (CronFn i a))))
           = (entries (timer cs))
               (i \<mapsto> e\<lparr>status := (case fst (dispatch (markStatus cs i Fired) a) of
                                     Inl err \<Rightarrow> Fired | Inr u \<Rightarrow> Pending)\<rparr>)"
proof -
  obtain r cs' where d: "dispatch (markStatus cs i Fired) a = (r, cs')"
    by (cases "dispatch (markStatus cs i Fired) a")
  have "timer cs' = timer (markStatus cs i Fired)"
    using timer_dispatch [of "markStatus cs i Fired" a] d by simp
  then have en: "entries (timer cs') = (entries (timer cs))(i \<mapsto> e\<lparr>status := Fired\<rparr>)"
    using e by (simp add: entries_markStatus)
  show ?thesis
  proof (cases r)
    case (Inl err)
    then show ?thesis using d en by (simp add: run_JobFn_def)
  next
    case (Inr u)
    then show ?thesis using d en by (simp add: run_JobFn_def entries_markStatus_cases)
  qed
qed

text \<open>
  C5, as the claim states it, fails: a cron timer whose action is a notification, fired
  while the store rejects writes, is left in status \<open>fired\<close>. The dispatch rejects and
  the reset to \<open>pending\<close> is not reached.
\<close>

theorem cron_fire_failed_dispatch:
  "fst (TimerService_cron offline_store_services ''digest'' ''0 8 * * *''
          (Notify example_payload) ''id1'' 5 ''repeat:1'') = Inr ''id1''
   \<and> map_option status (entries (timer (Broker_deliver
        (snd (TimerService_cron offline_store_services ''digest'' ''0 8 * * *''
                (Notify example_payload) ''id1'' 5 ''repeat:1'')) ''repeat:1'')) ''id1'')
       = Some Fired"
  by (simp add: eval_defs offline_store_services_def)

text \<open>
  C5, amended. A cron fire whose dispatch completes without error ends with the entry in
  status \<open>pending\<close>, every other field and every other entry as before. A cron fire
  whose dispatch fails ends with the entry in status \<open>fired\<close>.
\<close>

theorem cron_fire_status:
  "entries (timer cs) i = Some e \<Longrightarrow>
     (fst (dispatch (markStatus cs i Fired) a) = Inr () \<longrightarrow>
        entries (timer (snd (run_JobFn cs (CronFn i a))))
          = (entries (timer cs))(i \<mapsto> e\<lparr>status := Pending\<rparr>))
     \<and> (\<forall>err. fst (dispatch (markStatus cs i Fired) a) = Inl err \<longrightarrow>
          entries (timer (snd (run_JobFn cs (CronFn i a))))
            = (entries (timer cs))(i \<mapsto> e\<lparr>status := Fired\<rparr>))"
  by (simp add: cron_fire_entries)

theorem cron_fire_status_witness:
  "entries (timer (snd (TimerService_cron example_services ''digest'' ''0 8 * * *''
       (Event ''tick'' ''1'') ''id1'' 5 ''repeat:1''))) ''id1''
     = Some \<lparr>entry_id = ''id1'', label = ''digest'', action = Event ''tick'' ''1'',
             status = Pending, fireAt = CronSchedule ''0 8 * * *'', createdAt = 5\<rparr>
   \<and> fst (dispatch (markStatus (snd (TimerService_cron example_services ''digest''
        ''0 8 * * *'' (Event ''tick'' ''1'') ''id1'' 5 ''repeat:1'')) ''id1'' Fired)
        (Event ''tick'' ''1'')) = Inr ()
   \<and> map_option status (entries (timer (snd (run_JobFn
        (snd (TimerService_cron example_services ''digest'' ''0 8 * * *''
           (Event ''tick'' ''1'') ''id1'' 5 ''repeat:1''))
        (CronFn ''id1'' (Event ''tick'' ''1''))))) ''id1'') = Some Pending
   \<and> fst (dispatch (markStatus (snd (TimerService_cron offline_store_services ''digest''
        ''0 8 * * *'' (Notify example_payload) ''id1'' 5 ''repeat:1'')) ''id1'' Fired)
        (Notify example_payload)) = Inl PersistenceFailure
   \<and> map_option status (entries (timer (snd (run_JobFn
        (snd (TimerService_cron offline_store_services ''digest'' ''0 8 * * *''
           (Notify example_payload) ''id1'' 5 ''repeat:1''))
        (CronFn ''id1'' (Notify example_payload))))) ''id1'') = Some Fired"
proof -
  let ?a = "Event ''tick'' ''1''"
  let ?cs = "snd (TimerService_cron example_services ''digest'' ''0 8 * * *''
       ?a ''id1'' 5 ''repeat:1'')"
  let ?e = "\<lparr>entry_id = ''id1'', label = ''digest'', action = ?a,
             status = Pending, fireAt = CronSchedule ''0 8 * * *'', createdAt = 5\<rparr>"
  let ?b = "Notify example_payload"
  let ?ds = "snd (TimerService_cron offline_store_services ''digest'' ''0 8 * * *''
       ?b ''id1'' 5 ''repeat:1'')"
  let ?f = "\<lparr>entry_id = ''id1'', label = ''digest'', action = ?b,
             status = Pending, fireAt = CronSchedule ''0 8 * * *'', createdAt = 5\<rparr>"
  have e: "entries (timer ?cs) ''id1'' = Some ?e"
    by (simp add: TimerService_cron_def Let_def)
  have d: "fst (dispatch (markStatus ?cs ''id1'' Fired) ?a) = Inr ()"
    by (simp add: eval_defs example_services_def)
  have f: "entries (timer ?ds) ''id1'' = Some ?f"
    by (simp add: TimerService_cron_def Let_def)
  have g: "fst (dispatch (markStatus ?ds ''id1'' Fired) ?b) = Inl PersistenceFailure"
    by (simp add: eval_defs offline_store_services_def)
  show ?thesis
    using e d g cron_fire_status [OF e, of ?a] cron_fire_status [OF f, of ?b]
    by simp
qed

section \<open>Timer service: the action from scheduling to firing\<close>

text \<open>
  The recorded action and the registered closure of each timer, after each operation.
\<close>

lemma timer_action_markStatus [simp]: "timer_action (markStatus cs i st) = timer_action cs"
  by (simp add: timer_action_def markStatus_def fun_eq_iff split: option.splits)

lemma timer_action_cong: "timer cs' = timer cs \<Longrightarrow> timer_action cs' = timer_action cs"
  by (simp add: timer_action_def fun_eq_iff)

lemma scheduler_run_JobFn [simp]: "scheduler (snd (run_JobFn cs fn)) = scheduler cs"
proof (cases fn)
  case (CronFn i a)
  obtain r cs' where d: "dispatch (markStatus cs i Fired) a = (r, cs')"
    by (cases "dispatch (markStatus cs i Fired) a")
  have "scheduler cs' = scheduler cs"
    using scheduler_dispatch [of "markStatus cs i Fired" a] d by simp
  then show ?thesis using CronFn d by (cases r) (simp_all add: run_JobFn_def)
qed (simp_all add: run_JobFn_def)

lemma timer_action_run_JobFn [simp]: "timer_action (snd (run_JobFn cs fn)) = timer_action cs"
proof (cases fn)
  case (AfterFn i a)
  have "timer_action (snd (dispatch (markStatus cs i Fired) a)) = timer_action (markStatus cs i Fired)"
    by (rule timer_action_cong) simp
  then show ?thesis using AfterFn by (simp add: run_JobFn_def)
next
  case (CronFn i a)
  obtain r cs' where d: "dispatch (markStatus cs i Fired) a = (r, cs')"
    by (cases "dispatch (markStatus cs i Fired) a")
  have "timer cs' = timer (markStatus cs i Fired)"
    using timer_dispatch [of "markStatus cs i Fired" a] d by simp
  then have "timer_action cs' = timer_action cs"
    using timer_action_cong [of cs' "markStatus cs i Fired"] by simp
  then show ?thesis using CronFn d by (cases r) (simp_all add: run_JobFn_def)
next
  case (SendFn p)
  then show ?thesis by (simp add: run_JobFn_def timer_action_def fun_eq_iff)
qed

lemma handlers_Worker_process [simp]:
  "handlers (scheduler (snd (Worker_process cs job))) = handlers (scheduler cs)"
  by (simp add: Worker_process_def split: option.splits)

lemma timer_action_Worker_process [simp]:
  "timer_action (snd (Worker_process cs job)) = timer_action cs"
proof (cases "handlers (scheduler cs) (job_name job)")
  case None
  then show ?thesis by (simp add: Worker_process_def timer_action_def fun_eq_iff)
next
  case (Some fn)
  then show ?thesis by (simp add: Worker_process_def)
qed

lemma isReady_Worker_process [simp]:
  "isReady (scheduler (snd (Worker_process cs job))) = isReady (scheduler cs)"
  by (simp add: Worker_process_def isReady_def split: option.splits)

lemma timer_action_on_failed [simp]:
  "timer_action (Worker_on_failed rc) = timer_action (snd rc)"
  by (simp add: Worker_on_failed_def timer_action_def fun_eq_iff split: sum.splits)

lemma timer_action_take [simp]: "timer_action (Broker_take cs q j job) = timer_action cs"
  by (simp add: Broker_take_def timer_action_def fun_eq_iff)

lemma timer_action_Broker_deliver [simp]: "timer_action (Broker_deliver cs j) = timer_action cs"
  by (simp add: Broker_deliver_def split: option.splits)

lemma handlers_on_failed [simp]:
  "handlers (scheduler (Worker_on_failed rc)) = handlers (scheduler (snd rc))"
  by (simp add: Worker_on_failed_def split: sum.splits)

lemma handlers_take [simp]:
  "handlers (scheduler (Broker_take cs q j job)) = handlers (scheduler cs)"
  by (simp add: Broker_take_def)

lemma handlers_Broker_deliver [simp]:
  "handlers (scheduler (Broker_deliver cs j)) = handlers (scheduler cs)"
  by (simp add: Broker_deliver_def split: option.splits)

lemma isReady_Broker_deliver [simp]:
  "isReady (scheduler (Broker_deliver cs j)) = isReady (scheduler cs)"
  by (simp add: Broker_deliver_def isReady_def Worker_on_failed_def Broker_take_def
        Worker_process_def
        split: option.splits sum.splits)

lemma isReady_add [simp]: "isReady (Scheduler_add s name c fn assigned) = isReady s"
  by (simp add: Scheduler_add_def isReady_def Queue_add_def Let_def)

lemma timer_action_after [simp]:
  "timer_action (snd (TimerService_after cs lbl d a uuid now)) = (timer_action cs)(uuid \<mapsto> a)"
  by (simp add: TimerService_after_def timer_action_def fun_eq_iff Let_def
        split: sum.splits prod.splits)

lemma timer_closure_after [simp]:
  "timer_closure (snd (TimerService_after cs lbl d a uuid now))
     = (if isReady (scheduler cs) then (timer_closure cs)(uuid \<mapsto> AfterFn uuid a)
        else timer_closure cs)"
  by (simp add: TimerService_after_def Scheduler_addDelayed_def Queue_add_def
        timer_closure_def fun_eq_iff Let_def)

lemma isReady_after [simp]:
  "isReady (scheduler (snd (TimerService_after cs lbl d a uuid now))) = isReady (scheduler cs)"
  by (simp add: TimerService_after_def Scheduler_addDelayed_def Queue_add_def isReady_def Let_def)

lemma timer_action_cron [simp]:
  "timer_action (snd (TimerService_cron cs lbl c a uuid now assigned))
     = (timer_action cs)(uuid \<mapsto> a)"
  by (simp add: TimerService_cron_def timer_action_def fun_eq_iff Let_def)

lemma timer_closure_cron [simp]:
  "timer_closure (snd (TimerService_cron cs lbl c a uuid now assigned))
     = (if isReady (scheduler cs) then (timer_closure cs)(uuid \<mapsto> CronFn uuid a)
        else timer_closure cs)"
  by (simp add: TimerService_cron_def Scheduler_add_def Queue_add_def
        timer_closure_def fun_eq_iff Let_def)

lemma isReady_cron [simp]:
  "isReady (scheduler (snd (TimerService_cron cs lbl c a uuid now assigned)))
     = isReady (scheduler cs)"
  by (simp add: TimerService_cron_def Let_def)

lemma timer_action_cancel [simp]:
  "timer_action (snd (TimerService_cancel cs i)) = timer_action cs"
  by (simp add: TimerService_cancel_def timer_action_def markStatus_def fun_eq_iff
        split: option.splits)

lemma timer_closure_cancel [simp]:
  "timer_closure (snd (TimerService_cancel cs i)) = timer_closure cs"
  by (simp add: TimerService_cancel_def timer_closure_def fun_eq_iff split: option.splits)

lemma isReady_cancel [simp]:
  "isReady (scheduler (snd (TimerService_cancel cs i))) = isReady (scheduler cs)"
  by (simp add: TimerService_cancel_def isReady_remove split: option.splits)

lemma timer_action_at [simp]:
  "timer_action (snd (TimerService_at cs lbl dt a uuid now))
     = (if dt < int now then timer_action cs else (timer_action cs)(uuid \<mapsto> a))"
  by (simp add: TimerService_at_def Let_def)

lemma timer_closure_at [simp]:
  "timer_closure (snd (TimerService_at cs lbl dt a uuid now))
     = (if int now \<le> dt \<and> isReady (scheduler cs)
        then (timer_closure cs)(uuid \<mapsto> AfterFn uuid a) else timer_closure cs)"
  by (simp add: TimerService_at_def Let_def)

lemma isReady_at [simp]:
  "isReady (scheduler (snd (TimerService_at cs lbl dt a uuid now))) = isReady (scheduler cs)"
  by (simp add: TimerService_at_def Let_def)

lemma timer_action_schedule [simp]:
  "timer_action (snd (NotificationService_schedule cs p at_ms now)) = timer_action cs"
proof (cases "at_ms - int now \<le> 0")
  case True
  obtain r cs' where d: "NotificationService_send cs p = (r, cs')"
    by (cases "NotificationService_send cs p")
  then have "timer cs' = timer cs"
    using timer_send [of cs p] by simp
  then show ?thesis
    using True d
    by (cases r) (simp_all add: NotificationService_schedule_def timer_action_def fun_eq_iff)
next
  case False
  then show ?thesis
    by (simp add: NotificationService_schedule_def timer_action_def fun_eq_iff Let_def
          split: sum.splits)
qed

lemma timer_closure_schedule [simp]:
  "timer_closure (snd (NotificationService_schedule cs p at_ms now)) = timer_closure cs"
proof (cases "at_ms - int now \<le> 0")
  case True
  obtain r cs' where d: "NotificationService_send cs p = (r, cs')"
    by (cases "NotificationService_send cs p")
  then have "scheduler cs' = scheduler cs"
    using scheduler_send [of cs p] by simp
  then show ?thesis
    using True d
    by (cases r) (simp_all add: NotificationService_schedule_def timer_closure_def fun_eq_iff)
next
  case False
  then show ?thesis
    by (simp add: NotificationService_schedule_def Scheduler_addDelayed_def Queue_add_def
          timer_closure_def fun_eq_iff Let_def)
qed

lemma isReady_schedule [simp]:
  "isReady (scheduler (snd (NotificationService_schedule cs p at_ms now)))
     = isReady (scheduler cs)"
proof (cases "at_ms - int now \<le> 0")
  case True
  obtain r cs' where d: "NotificationService_send cs p = (r, cs')"
    by (cases "NotificationService_send cs p")
  then have "scheduler cs' = scheduler cs"
    using scheduler_send [of cs p] by simp
  then show ?thesis
    using True d by (cases r) (simp_all add: NotificationService_schedule_def)
next
  case False
  then show ?thesis
    by (simp add: NotificationService_schedule_def Scheduler_addDelayed_def Queue_add_def
          isReady_def Let_def)
qed

lemma timer_action_perform:
  "timer_action (perform cs c) i = Some a \<Longrightarrow>
   timer_action cs i = Some a \<or> (i, a) \<in> set (supplied [c])"
  by (cases c) (auto simp: NotificationService_cancel_def timer_action_def split: if_splits)

lemma isReady_perform [simp]: "isReady (scheduler (perform cs c)) = isReady (scheduler cs)"
  by (cases c)
     (simp_all add: NotificationService_cancel_def isReady_remove timer_action_def)

lemma timer_closure_perform:
  "timer_closure (perform cs c) =
     (case c of
        After lbl d a uuid now \<Rightarrow>
          if isReady (scheduler cs) then (timer_closure cs)(uuid \<mapsto> AfterFn uuid a)
          else timer_closure cs
      | At lbl dt a uuid now \<Rightarrow>
          if int now \<le> dt \<and> isReady (scheduler cs)
          then (timer_closure cs)(uuid \<mapsto> AfterFn uuid a) else timer_closure cs
      | CronCall lbl x a uuid now assigned \<Rightarrow>
          if isReady (scheduler cs) then (timer_closure cs)(uuid \<mapsto> CronFn uuid a)
          else timer_closure cs
      | _ \<Rightarrow> timer_closure cs)"
  by (cases c) (simp_all add: NotificationService_cancel_def timer_closure_def fun_eq_iff)

lemma timer_action_perform_eq:
  "timer_action (perform cs c) =
     (case c of
        After lbl d a uuid now \<Rightarrow> (timer_action cs)(uuid \<mapsto> a)
      | At lbl dt a uuid now \<Rightarrow>
          if dt < int now then timer_action cs else (timer_action cs)(uuid \<mapsto> a)
      | CronCall lbl x a uuid now assigned \<Rightarrow> (timer_action cs)(uuid \<mapsto> a)
      | _ \<Rightarrow> timer_action cs)"
  by (cases c) (simp_all add: NotificationService_cancel_def timer_action_def fun_eq_iff)

text \<open>
  The invariant holds in freshly built services and every call keeps it.
\<close>

lemma consistent_init: "consistent (buildCoreServices outcome held acc)"
  by (simp add: consistent_def buildCoreServices_def timer_closure_def handlers_new)

lemma consistent_perform:
  assumes "consistent cs"
  shows "consistent (perform cs c)"
  using assms
  unfolding consistent_def timer_closure_perform timer_action_perform_eq isReady_perform
  by (auto simp: closure_of_def split: call.splits if_splits)

lemma consistent_foldl: "consistent cs \<Longrightarrow> consistent (foldl perform cs calls)"
  by (induction calls arbitrary: cs) (simp_all add: consistent_perform)

lemma supplied_Cons: "set (supplied (c # calls)) = set (supplied [c]) \<union> set (supplied calls)"
  by (cases c) auto

lemma timer_action_foldl:
  "timer_action (foldl perform cs calls) i = Some a \<Longrightarrow>
   timer_action cs i = Some a \<or> (i, a) \<in> set (supplied calls)"
proof (induction calls arbitrary: cs)
  case Nil
  then show ?case by simp
next
  case (Cons c calls)
  from Cons.prems have "timer_action (foldl perform (perform cs c) calls) i = Some a"
    by simp
  then have "timer_action (perform cs c) i = Some a \<or> (i, a) \<in> set (supplied calls)"
    by (rule Cons.IH)
  then show ?case
    using timer_action_perform [of cs c i a] supplied_Cons [of c calls] by blast
qed

lemma closure_holds_supplied_action:
  assumes "timer_closure (foldl perform (buildCoreServices outcome held acc) calls) i = Some fn"
  shows "\<exists>a. (i, a) \<in> set (supplied calls)
           \<and> timer_action (foldl perform (buildCoreServices outcome held acc) calls) i = Some a
           \<and> closure_of i a fn"
proof -
  let ?cs = "foldl perform (buildCoreServices outcome held acc) calls"
  have "consistent ?cs" by (simp add: consistent_foldl consistent_init)
  with assms obtain a where a: "timer_action ?cs i = Some a" "closure_of i a fn"
    by (auto simp: consistent_def)
  have "timer_action (buildCoreServices outcome held acc) i = None"
    by (simp add: timer_action_def buildCoreServices_def)
  with a(1) timer_action_foldl [of "buildCoreServices outcome held acc" calls i a]
  have "(i, a) \<in> set (supplied calls)" by simp
  with a show ?thesis by blast
qed

text \<open>
  Status transitions: each call that does not schedule a timer under the id of an entry
  leaves that entry as it was, up to its status.
\<close>

lemma status_step_refl: "timer cs' = timer cs \<Longrightarrow> status_step cs cs'"
  unfolding status_step_def
proof (intro allI impI)
  fix j e
  assume "timer cs' = timer cs" and "entries (timer cs) j = Some e"
  then have "entries (timer cs') j = Some (e\<lparr>status := status e\<rparr>)" by simp
  then show "\<exists>st. entries (timer cs') j = Some (e\<lparr>status := st\<rparr>)" ..
qed

lemma status_step_trans:
  assumes "status_step cs cs'" and "status_step cs' cs''"
  shows "status_step cs cs''"
  unfolding status_step_def
proof (intro allI impI)
  fix j e
  assume "entries (timer cs) j = Some e"
  with assms(1) obtain st where "entries (timer cs') j = Some (e\<lparr>status := st\<rparr>)"
    unfolding status_step_def by blast
  with assms(2) obtain st' where
    "entries (timer cs'') j = Some (e\<lparr>status := st\<rparr>\<lparr>status := st'\<rparr>)"
    unfolding status_step_def by blast
  then have "entries (timer cs'') j = Some (e\<lparr>status := st'\<rparr>)" by simp
  then show "\<exists>st. entries (timer cs'') j = Some (e\<lparr>status := st\<rparr>)" ..
qed

lemma status_step_markStatus: "status_step cs (markStatus cs i st)"
proof (cases "entries (timer cs) i")
  case None
  then have "markStatus cs i st = cs" by (simp add: markStatus_def)
  then show ?thesis by (simp add: status_step_refl)
next
  case (Some e0)
  show ?thesis
    unfolding status_step_def
  proof (intro allI impI)
    fix j e
    assume e: "entries (timer cs) j = Some e"
    show "\<exists>st'. entries (timer (markStatus cs i st)) j = Some (e\<lparr>status := st'\<rparr>)"
    proof (cases "j = i")
      case True
      with e Some have "entries (timer (markStatus cs i st)) j = Some (e\<lparr>status := st\<rparr>)"
        by (simp add: markStatus_def)
      then show ?thesis ..
    next
      case False
      with e Some have
        "entries (timer (markStatus cs i st)) j = Some (e\<lparr>status := status e\<rparr>)"
        by (simp add: markStatus_def)
      then show ?thesis ..
    qed
  qed
qed

lemma status_step_dispatch: "status_step cs (snd (dispatch cs a))"
  by (rule status_step_refl) simp

lemma status_step_run_JobFn: "status_step cs (snd (run_JobFn cs fn))"
proof (cases fn)
  case (AfterFn i a)
  have "status_step cs (snd (dispatch (markStatus cs i Fired) a))"
    by (rule status_step_trans [OF status_step_markStatus status_step_dispatch])
  then show ?thesis using AfterFn by (simp add: run_JobFn_def)
next
  case (CronFn i a)
  obtain r cs' where d: "dispatch (markStatus cs i Fired) a = (r, cs')"
    by (cases "dispatch (markStatus cs i Fired) a")
  have "status_step (markStatus cs i Fired) (snd (dispatch (markStatus cs i Fired) a))"
    by (rule status_step_dispatch)
  then have 1: "status_step cs cs'"
    using d status_step_trans [OF status_step_markStatus] by simp
  have 2: "status_step cs (markStatus cs' i Pending)"
    by (rule status_step_trans [OF 1 status_step_markStatus])
  show ?thesis using CronFn d 1 2 by (cases r) (simp_all add: run_JobFn_def)
next
  case (SendFn p)
  then show ?thesis by (simp add: run_JobFn_def status_step_refl)
qed

lemma status_step_Broker_deliver: "status_step cs (Broker_deliver cs j)"
proof (cases "queue (scheduler cs)")
  case None
  then show ?thesis by (simp add: Broker_deliver_def status_step_refl)
next
  case (Some q)
  show ?thesis
  proof (cases "Queue_getJob q j")
    case None
    with Some show ?thesis by (simp add: Broker_deliver_def status_step_refl)
  next
    case (Some job)
    let ?c1 = "Broker_take cs q j job"
    have 1: "status_step cs ?c1"
      by (rule status_step_refl) (simp add: Broker_take_def)
    have 2: "status_step ?c1 (snd (Worker_process ?c1 job))"
    proof (cases "handlers (scheduler ?c1) (job_name job)")
      case None
      then show ?thesis by (simp add: Worker_process_def status_step_refl)
    next
      case (Some fn)
      then show ?thesis by (simp add: Worker_process_def status_step_run_JobFn)
    qed
    have 3: "status_step (snd (Worker_process ?c1 job)) (Worker_on_failed (Worker_process ?c1 job))"
      by (rule status_step_refl) (simp add: Worker_on_failed_def split: sum.splits)
    have "status_step cs (Worker_on_failed (Worker_process ?c1 job))"
      by (rule status_step_trans [OF 1 status_step_trans [OF 2 3]])
    with Some \<open>queue (scheduler cs) = Some q\<close> show ?thesis
      by (simp add: Broker_deliver_def)
  qed
qed

lemma status_step_cancel: "status_step cs (snd (TimerService_cancel cs i))"
proof (cases "entries (timer cs) i")
  case None
  then show ?thesis by (simp add: TimerService_cancel_def status_step_refl)
next
  case (Some e)
  let ?c1 = "cs\<lparr>scheduler := Scheduler_remove (scheduler cs) (''timer:'' @ i)\<rparr>"
  have "status_step cs ?c1" by (rule status_step_refl) simp
  then have "status_step cs (markStatus ?c1 i Cancelled)"
    by (rule status_step_trans [OF _ status_step_markStatus])
  with Some show ?thesis by (simp add: TimerService_cancel_def)
qed

lemma status_step_other_entry:
  "entries (timer cs') j = entries (timer cs) j \<Longrightarrow> entries (timer cs) j = Some e \<Longrightarrow>
   \<exists>st. entries (timer cs') j = Some (e\<lparr>status := st\<rparr>)"
proof -
  assume "entries (timer cs') j = entries (timer cs) j" and "entries (timer cs) j = Some e"
  then have "entries (timer cs') j = Some (e\<lparr>status := status e\<rparr>)" by simp
  then show ?thesis ..
qed

lemma perform_changes_status_only:
  assumes e: "entries (timer cs) j = Some e"
      and j: "j \<notin> fst ` set (supplied [c])"
  shows "\<exists>st. entries (timer (perform cs c)) j = Some (e\<lparr>status := st\<rparr>)"
proof (cases c)
  case (After lbl d a uuid now)
  with j have "entries (timer (perform cs c)) j = entries (timer cs) j"
    by (simp add: entries_after)
  then show ?thesis using e by (rule status_step_other_entry)
next
  case (At lbl dt a uuid now)
  with j have "entries (timer (perform cs c)) j = entries (timer cs) j"
    by (simp add: TimerService_at_def entries_after Let_def)
  then show ?thesis using e by (rule status_step_other_entry)
next
  case (CronCall lbl x a uuid now assigned)
  with j have "entries (timer (perform cs c)) j = entries (timer cs) j"
    by (simp add: entries_cron)
  then show ?thesis using e by (rule status_step_other_entry)
next
  case (Cancel i)
  then show ?thesis using e status_step_cancel [of cs i] by (simp add: status_step_def)
next
  case (Send p)
  then show ?thesis using e status_step_refl [of "perform cs c" cs]
    by (simp add: status_step_def)
next
  case (Schedule p at_ms now)
  then show ?thesis using e status_step_refl [of "perform cs c" cs]
    by (simp add: status_step_def)
next
  case (CancelJob x)
  then show ?thesis using e status_step_refl [of "perform cs c" cs]
    by (simp add: status_step_def NotificationService_cancel_def)
next
  case (Emit ev p)
  then show ?thesis using e status_step_refl [of "perform cs c" cs]
    by (simp add: status_step_def)
next
  case (Deliver x)
  then show ?thesis using e status_step_Broker_deliver [of cs x] by (simp add: status_step_def)
qed

text \<open>
  C9. In every state that a run reaches from freshly built services, the closure
  registered for timer \<open>i\<close> holds an action that was supplied with id \<open>i\<close> by a
  scheduling call of the run (\<open>after\<close>, \<open>at\<close> or \<open>cron\<close>), and the entry records
  the same action. With a ready scheduler \<open>after\<close> and \<open>cron\<close> register that closure,
  and running a closure dispatches exactly the action it holds. \<open>markStatus\<close> replaces
  an entry by a copy that differs in the status field only (id, label, action, fireAt and
  createdAt as before), and every call that does not schedule a timer under the id of an
  entry (a fire, a cancel, a cron re-arm, anything else) leaves that entry as it was, up
  to its status.
\<close>

theorem action_carried:
  "(timer_closure (foldl perform (buildCoreServices outcome held acc) calls) i = Some fn \<longrightarrow>
      (\<exists>a. (i, a) \<in> set (supplied calls)
         \<and> timer_action (foldl perform (buildCoreServices outcome held acc) calls) i = Some a
         \<and> closure_of i a fn))
   \<and> (isReady (scheduler cs) \<longrightarrow>
        timer_closure (snd (TimerService_after cs lbl d a uuid now)) uuid = Some (AfterFn uuid a)
        \<and> timer_closure (snd (TimerService_cron cs lbl x a uuid now assigned)) uuid
            = Some (CronFn uuid a))
   \<and> run_JobFn cs (AfterFn i a) = dispatch (markStatus cs i Fired) a
   \<and> fst (run_JobFn cs (CronFn i a)) = fst (dispatch (markStatus cs i Fired) a)
   \<and> (entries (timer cs) j = Some e \<longrightarrow>
        entries (timer (markStatus cs j st)) = (entries (timer cs))(j \<mapsto> e\<lparr>status := st\<rparr>)
        \<and> e\<lparr>status := st\<rparr>
            = \<lparr>entry_id = entry_id e, label = label e, action = action e, status = st,
               fireAt = fireAt e, createdAt = createdAt e\<rparr>
        \<and> (j \<notin> fst ` set (supplied [c]) \<longrightarrow>
             (\<exists>st'. entries (timer (perform cs c)) j = Some (e\<lparr>status := st'\<rparr>))))"
proof (intro conjI impI)
  assume "timer_closure (foldl perform (buildCoreServices outcome held acc) calls) i = Some fn"
  then show "\<exists>a. (i, a) \<in> set (supplied calls)
         \<and> timer_action (foldl perform (buildCoreServices outcome held acc) calls) i = Some a
         \<and> closure_of i a fn"
    by (rule closure_holds_supplied_action)
next
  show "run_JobFn cs (AfterFn i a) = dispatch (markStatus cs i Fired) a"
    by (simp add: run_JobFn_def)
  show "fst (run_JobFn cs (CronFn i a)) = fst (dispatch (markStatus cs i Fired) a)"
    by (simp add: run_JobFn_def split: prod.splits sum.splits)
  show "e\<lparr>status := st\<rparr>
            = \<lparr>entry_id = entry_id e, label = label e, action = action e, status = st,
               fireAt = fireAt e, createdAt = createdAt e\<rparr>"
    by (cases e) simp
next
  assume "entries (timer cs) j = Some e" and "j \<notin> fst ` set (supplied [c])"
  then show "\<exists>st'. entries (timer (perform cs c)) j = Some (e\<lparr>status := st'\<rparr>)"
    by (rule perform_changes_status_only)
qed (simp_all add: entries_markStatus)

theorem action_carried_witness:
  "timer_closure (foldl perform example_services
       [After ''x'' 1000 (Event ''ping'' ''1'') ''id1'' 5, Cancel ''id1'']) ''id1''
     = Some (AfterFn ''id1'' (Event ''ping'' ''1''))
   \<and> (''id1'', Event ''ping'' ''1'')
       \<in> set (supplied [After ''x'' 1000 (Event ''ping'' ''1'') ''id1'' 5, Cancel ''id1''])
   \<and> timer_action (foldl perform example_services
         [After ''x'' 1000 (Event ''ping'' ''1'') ''id1'' 5, Cancel ''id1'']) ''id1''
       = Some (Event ''ping'' ''1'')
   \<and> isReady (scheduler example_services)
   \<and> entries (timer (perform example_services
         (After ''x'' 1000 (Event ''ping'' ''1'') ''id1'' 5))) ''id1''
       = Some \<lparr>entry_id = ''id1'', label = ''x'', action = Event ''ping'' ''1'',
               status = Pending, fireAt = AtMillis 1005, createdAt = 5\<rparr>
   \<and> ''id1'' \<notin> fst ` set (supplied [Deliver ''timer:id1-5''])
   \<and> (\<exists>st. entries (timer (perform (perform example_services
         (After ''x'' 1000 (Event ''ping'' ''1'') ''id1'' 5)) (Deliver ''timer:id1-5''))) ''id1''
       = Some \<lparr>entry_id = ''id1'', label = ''x'', action = Event ''ping'' ''1'',
               status = st, fireAt = AtMillis 1005, createdAt = 5\<rparr>)"
proof -
  let ?a = "Event ''ping'' ''1''"
  let ?calls = "[After ''x'' 1000 ?a ''id1'' 5, Cancel ''id1'']"
  let ?cs = "perform example_services (After ''x'' 1000 ?a ''id1'' 5)"
  let ?e = "\<lparr>entry_id = ''id1'', label = ''x'', action = ?a,
             status = Pending, fireAt = AtMillis 1005, createdAt = 5\<rparr>"
  have r: "isReady (scheduler example_services)"
    by (simp add: example_services_def buildCoreServices_def Scheduler_new_degraded)
  have k: "timer_closure (foldl perform (buildCoreServices Connected Map.empty (\<lambda>row. True)) ?calls)
             ''id1'' = Some (AfterFn ''id1'' ?a)"
    using r by (simp add: example_services_def)
  have e: "entries (timer ?cs) ''id1'' = Some ?e"
    by (simp add: entries_after)
  have n: "''id1'' \<notin> fst ` set (supplied [Deliver ''timer:id1-5''])"
    by simp
  show ?thesis
    using r k e n
      action_carried [where outcome = Connected and held = Map.empty and acc = "\<lambda>row. True" and calls = ?calls
        and i = "''id1''" and fn = "AfterFn ''id1'' ?a" and cs = ?cs and j = "''id1''"
        and e = ?e and c = "Deliver ''timer:id1-5''" and st = Fired]
    by (simp add: example_services_def closure_of_def)
qed

section \<open>Timer service: cancel\<close>

text \<open>
  With a ready scheduler, whatever the timer: the job that \<open>after\<close> enqueued is still
  queued after \<open>cancel\<close>, and its delivery runs the dispatch of the action.
\<close>

lemma cancel_leaves_job_queued:
  assumes "isReady (scheduler cs)"
  shows "Queue_getJob
           (the (queue (scheduler (snd (TimerService_cancel
              (snd (TimerService_after cs lbl d a uuid now)) uuid)))))
           (''timer:'' @ uuid @ ''-'' @ show_nat now)
         = Some \<lparr>job_id = Some (''timer:'' @ uuid @ ''-'' @ show_nat now),
                 job_name = ''timer:'' @ uuid,
                 job_opts = DelayOpts d (''timer:'' @ uuid @ ''-'' @ show_nat now)\<rparr>"
  using assms
  by (auto simp: TimerService_cancel_def TimerService_after_def Scheduler_addDelayed_def
        Scheduler_remove_def Queue_add_def Queue_getJob_def Job_remove_def isReady_def Let_def
      split: option.splits)

lemma delivery_after_cancel_dispatches:
  assumes r: "isReady (scheduler cs)"
  shows "\<exists>q job.
           queue (scheduler (snd (TimerService_cancel
              (snd (TimerService_after cs lbl d a uuid now)) uuid))) = Some q
           \<and> Queue_getJob q (''timer:'' @ uuid @ ''-'' @ show_nat now) = Some job
           \<and> Broker_deliver
                (snd (TimerService_cancel (snd (TimerService_after cs lbl d a uuid now)) uuid))
                (''timer:'' @ uuid @ ''-'' @ show_nat now)
               = Worker_on_failed
                   (dispatch
                      (markStatus
                         (Broker_take
                            (snd (TimerService_cancel
                               (snd (TimerService_after cs lbl d a uuid now)) uuid))
                            q (''timer:'' @ uuid @ ''-'' @ show_nat now) job)
                         uuid Fired)
                      a)"
proof -
  let ?jid = "''timer:'' @ uuid @ ''-'' @ show_nat now"
  let ?cs2 = "snd (TimerService_cancel (snd (TimerService_after cs lbl d a uuid now)) uuid)"
  let ?job = "\<lparr>job_id = Some ?jid, job_name = ''timer:'' @ uuid, job_opts = DelayOpts d ?jid\<rparr>"
  have "isReady (scheduler ?cs2)"
    using r by simp
  then obtain q where q: "queue (scheduler ?cs2) = Some q"
    by (auto simp: isReady_def)
  have j: "Queue_getJob q ?jid = Some ?job"
    using cancel_leaves_job_queued [OF r, of lbl d a uuid now] q by simp
  have "timer_closure ?cs2 uuid = Some (AfterFn uuid a)"
    using r by simp
  then have h: "handlers (scheduler (Broker_take ?cs2 q ?jid ?job)) (job_name ?job)
                  = Some (AfterFn uuid a)"
    unfolding timer_closure_def by simp
  have "Broker_deliver ?cs2 ?jid
          = Worker_on_failed (dispatch (markStatus (Broker_take ?cs2 q ?jid ?job) uuid Fired) a)"
    using q j h by (simp add: Broker_deliver_def Worker_process_def run_JobFn_def)
  with q j show ?thesis by blast
qed

text \<open>
  C1. The code does not do what the claim says. \<open>after\<close> enqueues its job under the
  id \<open>timer:<id>-<now>\<close>, and \<open>cancel\<close> asks the scheduler to remove the id
  \<open>timer:<id>\<close>, which the queue does not hold. After a successful \<open>cancel\<close> the
  entry is \<open>cancelled\<close>, but the job is still queued; when the broker delivers it, the
  action is dispatched and the entry becomes \<open>fired\<close>.
\<close>

theorem cancel_misses_job:
  "fst (TimerService_after example_services ''x'' 1000 (Notify example_payload) ''id1'' 5)
     = Inr ''id1''
   \<and> fst (TimerService_cancel
        (snd (TimerService_after example_services ''x'' 1000 (Notify example_payload) ''id1'' 5))
        ''id1'') = Inr ()
   \<and> map_option status (entries (timer (snd (TimerService_cancel
        (snd (TimerService_after example_services ''x'' 1000 (Notify example_payload) ''id1'' 5))
        ''id1''))) ''id1'') = Some Cancelled
   \<and> map_option job_name (Queue_getJob (the (queue (scheduler (snd (TimerService_cancel
        (snd (TimerService_after example_services ''x'' 1000 (Notify example_payload) ''id1'' 5))
        ''id1''))))) ''timer:id1-5'') = Some ''timer:id1''
   \<and> trace (Broker_deliver (snd (TimerService_cancel
        (snd (TimerService_after example_services ''x'' 1000 (Notify example_payload) ''id1'' 5))
        ''id1'')) ''timer:id1-5'') = [DbCreate (data_of example_payload)]
   \<and> map_option status (entries (timer (Broker_deliver (snd (TimerService_cancel
        (snd (TimerService_after example_services ''x'' 1000 (Notify example_payload) ''id1'' 5))
        ''id1'')) ''timer:id1-5'')) ''id1'') = Some Fired"
  by (simp add: TimerService_after_def TimerService_cancel_def Scheduler_addDelayed_def
        Scheduler_remove_def Queue_add_def Queue_getJob_def Job_remove_def markStatus_def
        Broker_deliver_def Broker_take_def Worker_on_failed_def Worker_process_def run_JobFn_def dispatch_def
        NotificationService_send_def notification_create_def
        example_services_def buildCoreServices_def Scheduler_new_def isReady_def
        show_nat.simps digit_def Let_def)

section \<open>Notification service: cancel\<close>

text \<open>
  What a delivery and a removal leave in the queue.
\<close>

lemma queue_Worker_process [simp]:
  "queue (scheduler (snd (Worker_process cs job))) = queue (scheduler cs)"
  by (simp add: Worker_process_def split: option.splits)

lemma queue_on_failed [simp]:
  "queue (scheduler (Worker_on_failed rc)) = queue (scheduler (snd rc))"
  by (simp add: Worker_on_failed_def split: sum.splits)

lemma queue_Broker_deliver_delayed:
  assumes "queue (scheduler cs) = Some q" and "Queue_getJob q j = Some job"
      and "job_opts job = DelayOpts d x"
  shows "queue (scheduler (Broker_deliver cs j)) = Some (Job_remove q j)"
  using assms by (simp add: Broker_deliver_def Broker_take_def)

lemma Scheduler_remove_twice:
  "Scheduler_remove (Scheduler_remove s j) j = Scheduler_remove s j"
proof (cases "isReady s")
  case True
  then have r: "isReady (Scheduler_remove s j)" by (simp add: isReady_remove)
  show ?thesis
    by (simp add: Scheduler_remove_ready [OF r]) (simp add: Scheduler_remove_ready [OF True])
next
  case False
  then show ?thesis by (simp add: Scheduler_remove_not_ready)
qed

lemma cancel_state:
  "snd (NotificationService_cancel cs j)
     = (if isReady (scheduler cs)
        then cs\<lparr>scheduler := (scheduler cs)
                  \<lparr>queue := Some ((the (queue (scheduler cs)))(j := None)),
                   jobs := (jobs (scheduler cs))(j := None)\<rparr>\<rparr>
        else cs)"
  by (simp add: NotificationService_cancel_def Scheduler_remove_ready Scheduler_remove_not_ready)

text \<open>
  C10. \<open>NotificationService.cancel\<close> awaits \<open>Scheduler.remove\<close> and nothing else, and
  resolves for every job id. With a scheduler that is not ready no broker call is made
  and nothing changes. For an id the queue does not hold (never issued, or already
  removed) \<open>getJob\<close> answers with no job, \<open>job.remove\<close> is not called, and only the
  local bookkeeping for the id is deleted. A delayed job that the broker has delivered
  (already executed) is no longer held, so cancelling its id afterwards resolves in the
  same way. For an id the queue holds the job is removed. Cancelling twice leaves the
  state that cancelling once leaves.
\<close>

theorem notification_cancel_never_fails:
  "fst (NotificationService_cancel cs j) = Inr ()
   \<and> (\<not> isReady (scheduler cs) \<longrightarrow> snd (NotificationService_cancel cs j) = cs)
   \<and> (isReady (scheduler cs) \<and> Queue_getJob (the (queue (scheduler cs))) j = None \<longrightarrow>
        snd (NotificationService_cancel cs j)
          = cs\<lparr>scheduler := (scheduler cs)\<lparr>jobs := (jobs (scheduler cs))(j := None)\<rparr>\<rparr>)
   \<and> (isReady (scheduler cs) \<and> Queue_getJob (the (queue (scheduler cs))) j = Some job
        \<and> job_opts job = DelayOpts d x \<longrightarrow>
        Queue_getJob (the (queue (scheduler (Broker_deliver cs j)))) j = None
        \<and> fst (NotificationService_cancel (Broker_deliver cs j) j) = Inr ()
        \<and> snd (NotificationService_cancel (Broker_deliver cs j) j)
            = (Broker_deliver cs j)
                \<lparr>scheduler := (scheduler (Broker_deliver cs j))
                   \<lparr>jobs := (jobs (scheduler (Broker_deliver cs j)))(j := None)\<rparr>\<rparr>)
   \<and> (isReady (scheduler cs) \<and> Queue_getJob (the (queue (scheduler cs))) j = Some job \<longrightarrow>
        Queue_getJob (the (queue (scheduler (snd (NotificationService_cancel cs j))))) j = None)
   \<and> snd (NotificationService_cancel (snd (NotificationService_cancel cs j)) j)
       = snd (NotificationService_cancel cs j)"
proof (intro conjI impI)
  show "fst (NotificationService_cancel cs j) = Inr ()"
    by (simp add: NotificationService_cancel_def)
next
  assume "\<not> isReady (scheduler cs)"
  then show "snd (NotificationService_cancel cs j) = cs"
    by (simp add: cancel_state)
next
  assume "isReady (scheduler cs) \<and> Queue_getJob (the (queue (scheduler cs))) j = None"
  then show "snd (NotificationService_cancel cs j)
          = cs\<lparr>scheduler := (scheduler cs)\<lparr>jobs := (jobs (scheduler cs))(j := None)\<rparr>\<rparr>"
    by (auto simp: NotificationService_cancel_def Scheduler_remove_def Let_def isReady_def)
next
  assume a: "isReady (scheduler cs) \<and> Queue_getJob (the (queue (scheduler cs))) j = Some job
        \<and> job_opts job = DelayOpts d x"
  then obtain q where q: "queue (scheduler cs) = Some q"
    by (auto simp: isReady_def)
  have dq: "queue (scheduler (Broker_deliver cs j)) = Some (Job_remove q j)"
    using a q queue_Broker_deliver_delayed [of cs q j job d x] by simp
  then show g: "Queue_getJob (the (queue (scheduler (Broker_deliver cs j)))) j = None"
    by (simp add: Queue_getJob_def Job_remove_def)
  show "fst (NotificationService_cancel (Broker_deliver cs j) j) = Inr ()"
    by (simp add: NotificationService_cancel_def)
  have r: "isReady (scheduler (Broker_deliver cs j))" using a by simp
  then have "Scheduler_remove (scheduler (Broker_deliver cs j)) j
               = (scheduler (Broker_deliver cs j))
                   \<lparr>jobs := (jobs (scheduler (Broker_deliver cs j)))(j := None)\<rparr>"
    using g dq by (simp add: Scheduler_remove_def Let_def)
  then show "snd (NotificationService_cancel (Broker_deliver cs j) j)
            = (Broker_deliver cs j)
                \<lparr>scheduler := (scheduler (Broker_deliver cs j))
                   \<lparr>jobs := (jobs (scheduler (Broker_deliver cs j)))(j := None)\<rparr>\<rparr>"
    by (simp add: NotificationService_cancel_def)
next
  assume "isReady (scheduler cs) \<and> Queue_getJob (the (queue (scheduler cs))) j = Some job"
  then show "Queue_getJob (the (queue (scheduler (snd (NotificationService_cancel cs j))))) j
               = None"
    by (simp add: cancel_state Queue_getJob_def)
next
  show "snd (NotificationService_cancel (snd (NotificationService_cancel cs j)) j)
       = snd (NotificationService_cancel cs j)"
    by (simp add: NotificationService_cancel_def Scheduler_remove_twice)
qed

theorem notification_cancel_never_fails_witness:
  "\<not> isReady (scheduler (degraded_services))
   \<and> NotificationService_cancel (degraded_services)
        ''never-issued''
       = (Inr (), degraded_services)
   \<and> isReady (scheduler example_services)
   \<and> Queue_getJob (the (queue (scheduler example_services))) ''never-issued'' = None
   \<and> fst (NotificationService_cancel example_services ''never-issued'') = Inr ()
   \<and> fst (NotificationService_schedule example_services example_payload 1000 5)
       = Inr ''notify:u1:5-5''
   \<and> map_option job_name (Queue_getJob (the (queue (scheduler (snd
         (NotificationService_schedule example_services example_payload 1000 5)))))
         ''notify:u1:5-5'') = Some ''notify:u1:5''
   \<and> trace (Broker_deliver (snd (NotificationService_schedule example_services
         example_payload 1000 5)) ''notify:u1:5-5'') = [DbCreate (data_of example_payload)]
   \<and> Queue_getJob (the (queue (scheduler (Broker_deliver (snd
         (NotificationService_schedule example_services example_payload 1000 5))
         ''notify:u1:5-5'')))) ''notify:u1:5-5'' = None
   \<and> fst (NotificationService_cancel (Broker_deliver (snd
         (NotificationService_schedule example_services example_payload 1000 5))
         ''notify:u1:5-5'') ''notify:u1:5-5'') = Inr ()
   \<and> Queue_getJob (the (queue (scheduler (snd (NotificationService_cancel (snd
         (NotificationService_schedule example_services example_payload 1000 5))
         ''notify:u1:5-5''))))) ''notify:u1:5-5'' = None"
proof -
  let ?dg = "degraded_services"
  let ?cs = "snd (NotificationService_schedule example_services example_payload 1000 5)"
  let ?j = "''notify:u1:5-5''"
  let ?job = "\<lparr>job_id = Some ?j, job_name = ''notify:u1:5'',
               job_opts = DelayOpts 995 ?j\<rparr>"
  have d: "\<not> isReady (scheduler ?dg)"
    by (simp add: degraded_services_def buildCoreServices_def Scheduler_new_degraded)
  have r: "isReady (scheduler example_services)"
    by (simp add: example_services_def buildCoreServices_def Scheduler_new_degraded)
  have u: "Queue_getJob (the (queue (scheduler example_services))) ''never-issued'' = None"
    by (simp add: example_services_def buildCoreServices_def Scheduler_new_def Queue_getJob_def)
  have s: "fst (NotificationService_schedule example_services example_payload 1000 5) = Inr ?j"
    by (simp add: NotificationService_schedule_def eval_defs example_services_def
          example_payload_def)
  have rs: "isReady (scheduler ?cs)"
    using r by simp
  have h: "Queue_getJob (the (queue (scheduler ?cs))) ?j = Some ?job"
    by (simp add: NotificationService_schedule_def eval_defs example_services_def
          example_payload_def)
  have t: "trace (Broker_deliver ?cs ?j) = [DbCreate (data_of example_payload)]"
    by (simp add: NotificationService_schedule_def eval_defs example_services_def
          example_payload_def)
  show ?thesis
    using d r u s rs h t
      notification_cancel_never_fails [of ?dg "''never-issued''"]
      notification_cancel_never_fails [of example_services "''never-issued''"]
      notification_cancel_never_fails [of ?cs ?j ?job 995 ?j]
    by (simp add: prod_eq_iff)
qed

section \<open>Event bus: emit\<close>

lemma call_listeners_all_return:
  "\<forall>l \<in> set ls. invoke (listener l) p = Inr () \<Longrightarrow>
   fst (call_listeners ls ev p (b, calls)) = Inr ()
   \<and> snd (snd (call_listeners ls ev p (b, calls))) = calls @ map (\<lambda>l. (listener l, p)) ls"
  by (induction ls arbitrary: b calls) simp_all

lemma call_listeners_throw:
  "\<forall>x \<in> set pre. invoke (listener x) p = Inr () \<Longrightarrow> invoke (listener l) p = Inl e \<Longrightarrow>
   fst (call_listeners (pre @ l # post) ev p (b, calls)) = Inl e
   \<and> snd (snd (call_listeners (pre @ l # post) ev p (b, calls)))
       = calls @ map (\<lambda>x. (listener x, p)) (pre @ [l])"
  by (induction pre arbitrary: b calls) simp_all

text \<open>
  C7, as the claim states it, fails: with a listener that throws registered before one
  that returns, \<open>emit\<close> calls the first, its exception leaves \<open>emit\<close>, and the second
  is never called.
\<close>

theorem emit_stops_at_throwing_listener:
  "emitter (EventBus_on (EventBus_on EventBus_new ''ping'' (throwing_listener 1))
       ''ping'' (quiet_listener 2)) ''ping''
     = [\<lparr>listener = throwing_listener 1, is_once = False\<rparr>,
        \<lparr>listener = quiet_listener 2, is_once = False\<rparr>]
   \<and> fst (EventBus_emit (EventBus_on (EventBus_on EventBus_new ''ping'' (throwing_listener 1))
       ''ping'' (quiet_listener 2)) ''ping'' ''1'') = Inl (ListenerFailure ''boom'')
   \<and> snd (snd (EventBus_emit (EventBus_on (EventBus_on EventBus_new ''ping''
       (throwing_listener 1)) ''ping'' (quiet_listener 2)) ''ping'' ''1''))
     = [(throwing_listener 1, ''1'')]"
  by (simp add: EventBus_emit_def EventBus_on_def EventBus_new_def unwrap_once_def
        throwing_listener_def quiet_listener_def)

text \<open>
  C7, amended. \<open>emit\<close> calls the listeners registered for the event in the order of
  the listener list, each once with the payload, until one throws. When none throws every
  registered listener is called exactly once. When one throws, the listeners before it
  and that one are called exactly once, those after it are not called, and \<open>emit\<close>
  throws its error. \<open>on\<close> and \<open>once\<close> add at the end of the list, so the order is the
  order of registration. With no listener for the event nothing is called and the bus is
  unchanged (and \<open>emit\<close> throws when the event is \<open>error\<close>).
\<close>

theorem emit_calls_until_throw:
  "((\<forall>l \<in> set (emitter b ev). invoke (listener l) p = Inr ()) \<longrightarrow>
      snd (snd (EventBus_emit b ev p)) = map (\<lambda>l. (listener l, p)) (emitter b ev)
      \<and> fst (EventBus_emit b ev p)
          = (if ev = ''error'' \<and> emitter b ev = [] then Inl UnhandledError else Inr ()))
   \<and> (emitter b ev = pre @ l # post
        \<and> (\<forall>x \<in> set pre. invoke (listener x) p = Inr ())
        \<and> invoke (listener l) p = Inl e \<longrightarrow>
        fst (EventBus_emit b ev p) = Inl e
        \<and> snd (snd (EventBus_emit b ev p)) = map (\<lambda>x. (listener x, p)) (pre @ [l]))
   \<and> (emitter b ev = [] \<longrightarrow> snd (EventBus_emit b ev p) = (b, []))
   \<and> emitter (EventBus_on b ev h) ev = emitter b ev @ [\<lparr>listener = h, is_once = False\<rparr>]
   \<and> emitter (EventBus_once b ev h) ev = emitter b ev @ [\<lparr>listener = h, is_once = True\<rparr>]"
proof (intro conjI impI)
  assume a: "\<forall>l \<in> set (emitter b ev). invoke (listener l) p = Inr ()"
  show "snd (snd (EventBus_emit b ev p)) = map (\<lambda>l. (listener l, p)) (emitter b ev)"
  proof (cases "ev = ''error'' \<and> emitter b ev = []")
    case True
    then have "EventBus_emit b ev p = (Inl UnhandledError, b, [])"
      unfolding EventBus_emit_def by (rule if_P)
    moreover from True have "emitter b ev = []" by blast
    ultimately show ?thesis by simp
  next
    case False
    then have "EventBus_emit b ev p = call_listeners (emitter b ev) ev p (b, [])"
      unfolding EventBus_emit_def by (rule if_not_P)
    then show ?thesis using call_listeners_all_return [OF a, of ev b "[]"] by simp
  qed
  show "fst (EventBus_emit b ev p)
          = (if ev = ''error'' \<and> emitter b ev = [] then Inl UnhandledError else Inr ())"
  proof (cases "ev = ''error'' \<and> emitter b ev = []")
    case True
    then have "EventBus_emit b ev p = (Inl UnhandledError, b, [])"
      unfolding EventBus_emit_def by (rule if_P)
    moreover from True have "emitter b ev = []" by blast
    ultimately show ?thesis using True by simp
  next
    case False
    then have "EventBus_emit b ev p = call_listeners (emitter b ev) ev p (b, [])"
      unfolding EventBus_emit_def by (rule if_not_P)
    then show ?thesis using False call_listeners_all_return [OF a, of ev b "[]"] by simp
  qed
next
  assume t: "emitter b ev = pre @ l # post
        \<and> (\<forall>x \<in> set pre. invoke (listener x) p = Inr ())
        \<and> invoke (listener l) p = Inl e"
  then have c: "fst (call_listeners (pre @ l # post) ev p (b, [])) = Inl e
     \<and> snd (snd (call_listeners (pre @ l # post) ev p (b, [])))
         = [] @ map (\<lambda>x. (listener x, p)) (pre @ [l])"
    using call_listeners_throw [of pre p l e post ev b "[]"] by blast
  show "fst (EventBus_emit b ev p) = Inl e"
    using t c by (simp add: EventBus_emit_def)
  show "snd (snd (EventBus_emit b ev p)) = map (\<lambda>x. (listener x, p)) (pre @ [l])"
    using t c by (simp add: EventBus_emit_def)
next
  assume "emitter b ev = []"
  then show "snd (EventBus_emit b ev p) = (b, [])"
    by (simp add: EventBus_emit_def)
qed (simp_all add: EventBus_on_def EventBus_once_def)

theorem emit_calls_until_throw_witness:
  "map (\<lambda>l. invoke (listener l) ''1'')
       (emitter (EventBus_on (EventBus_once (EventBus_on EventBus_new ''ping''
          (quiet_listener 3)) ''ping'' (quiet_listener 4)) ''ping'' (quiet_listener 3)) ''ping'')
     = [Inr (), Inr (), Inr ()]
   \<and> snd (snd (EventBus_emit (EventBus_on (EventBus_once (EventBus_on EventBus_new ''ping''
        (quiet_listener 3)) ''ping'' (quiet_listener 4)) ''ping'' (quiet_listener 3))
        ''ping'' ''1''))
       = [(quiet_listener 3, ''1''), (quiet_listener 4, ''1''), (quiet_listener 3, ''1'')]
   \<and> fst (EventBus_emit (EventBus_on (EventBus_once (EventBus_on EventBus_new ''ping''
        (quiet_listener 3)) ''ping'' (quiet_listener 4)) ''ping'' (quiet_listener 3))
        ''ping'' ''1'') = Inr ()
   \<and> emitter (EventBus_on (EventBus_on (EventBus_on EventBus_new ''ping'' (quiet_listener 3))
        ''ping'' (throwing_listener 2)) ''ping'' (quiet_listener 5)) ''ping''
       = [\<lparr>listener = quiet_listener 3, is_once = False\<rparr>]
          @ \<lparr>listener = throwing_listener 2, is_once = False\<rparr>
          # [\<lparr>listener = quiet_listener 5, is_once = False\<rparr>]
   \<and> invoke (throwing_listener 2) ''1'' = Inl (ListenerFailure ''boom'')
   \<and> fst (EventBus_emit (EventBus_on (EventBus_on (EventBus_on EventBus_new ''ping''
        (quiet_listener 3)) ''ping'' (throwing_listener 2)) ''ping'' (quiet_listener 5))
        ''ping'' ''1'') = Inl (ListenerFailure ''boom'')
   \<and> snd (snd (EventBus_emit (EventBus_on (EventBus_on (EventBus_on EventBus_new ''ping''
        (quiet_listener 3)) ''ping'' (throwing_listener 2)) ''ping'' (quiet_listener 5))
        ''ping'' ''1''))
       = [(quiet_listener 3, ''1''), (throwing_listener 2, ''1'')]
   \<and> emitter EventBus_new ''ping'' = []
   \<and> snd (EventBus_emit EventBus_new ''ping'' ''1'') = (EventBus_new, [])"
proof -
  let ?A = "EventBus_on (EventBus_once (EventBus_on EventBus_new ''ping''
        (quiet_listener 3)) ''ping'' (quiet_listener 4)) ''ping'' (quiet_listener 3)"
  let ?B = "EventBus_on (EventBus_on (EventBus_on EventBus_new ''ping'' (quiet_listener 3))
        ''ping'' (throwing_listener 2)) ''ping'' (quiet_listener 5)"
  let ?pre = "[\<lparr>listener = quiet_listener 3, is_once = False\<rparr>]"
  let ?l = "\<lparr>listener = throwing_listener 2, is_once = False\<rparr>"
  let ?post = "[\<lparr>listener = quiet_listener 5, is_once = False\<rparr>]"
  have a: "\<forall>l \<in> set (emitter ?A ''ping''). invoke (listener l) ''1'' = Inr ()"
    by (simp add: EventBus_on_def EventBus_once_def EventBus_new_def quiet_listener_def)
  have la: "emitter ?A ''ping''
      = [\<lparr>listener = quiet_listener 3, is_once = False\<rparr>,
         \<lparr>listener = quiet_listener 4, is_once = True\<rparr>,
         \<lparr>listener = quiet_listener 3, is_once = False\<rparr>]"
    by (simp add: EventBus_on_def EventBus_once_def EventBus_new_def)
  have lb: "emitter ?B ''ping'' = ?pre @ ?l # ?post"
    by (simp add: EventBus_on_def EventBus_new_def)
  have p: "\<forall>x \<in> set ?pre. invoke (listener x) ''1'' = Inr ()"
    by (simp add: quiet_listener_def)
  have t: "invoke (listener ?l) ''1'' = Inl (ListenerFailure ''boom'')"
    by (simp add: throwing_listener_def)
  have e: "emitter EventBus_new ''ping'' = []"
    by (simp add: EventBus_new_def)
  have f1: "snd (snd (EventBus_emit ?A ''ping'' ''1''))
             = map (\<lambda>l. (listener l, ''1'')) (emitter ?A ''ping'')
           \<and> fst (EventBus_emit ?A ''ping'' ''1'') = Inr ()"
    using a emit_calls_until_throw [where b = ?A and ev = "''ping''" and p = "''1''"]
    by simp
  have f2: "fst (EventBus_emit ?B ''ping'' ''1'') = Inl (ListenerFailure ''boom'')
           \<and> snd (snd (EventBus_emit ?B ''ping'' ''1''))
               = map (\<lambda>x. (listener x, ''1'')) (?pre @ [?l])"
    using lb p t
      emit_calls_until_throw [where b = ?B and ev = "''ping''" and p = "''1''"
        and pre = ?pre and l = ?l and post = ?post and e = "ListenerFailure ''boom''"]
    by blast
  have f3: "snd (EventBus_emit EventBus_new ''ping'' ''1'') = (EventBus_new, [])"
    using e emit_calls_until_throw [where b = EventBus_new and ev = "''ping''" and p = "''1''"]
    by blast
  have ca: "snd (snd (EventBus_emit ?A ''ping'' ''1''))
      = [(quiet_listener 3, ''1''), (quiet_listener 4, ''1''), (quiet_listener 3, ''1'')]"
    using f1 by (simp add: la)
  have cb: "snd (snd (EventBus_emit ?B ''ping'' ''1''))
      = [(quiet_listener 3, ''1''), (throwing_listener 2, ''1'')]"
    using f2 by simp
  have ct: "invoke (throwing_listener 2) ''1'' = Inl (ListenerFailure ''boom'')"
    using t by simp
  have m: "map (\<lambda>l. invoke (listener l) ''1'') (emitter ?A ''ping'')
             = [Inr (), Inr (), Inr ()]"
    unfolding la by (simp add: quiet_listener_def)
  show ?thesis
    using m f1 ca lb ct f2 cb e f3 by (intro conjI) blast+
qed

text \<open>
  After an emit in which no listener throws, the \<open>once\<close> listeners of the event are
  gone and the others stay.
\<close>

lemma call_listeners_bus:
  "\<forall>l \<in> set pre. \<not> is_once l \<Longrightarrow> \<forall>l \<in> set ls. invoke (listener l) p = Inr () \<Longrightarrow>
   emitter b ev = pre @ ls \<Longrightarrow>
   emitter (fst (snd (call_listeners ls ev p (b, calls)))) ev
     = pre @ filter (\<lambda>l. \<not> is_once l) ls"
proof (induction ls arbitrary: b calls pre)
  case Nil
  then show ?case by simp
next
  case (Cons l ls)
  have r: "\<forall>x \<in> set ls. invoke (listener x) p = Inr ()" using Cons.prems(2) by simp
  show ?case
  proof (cases "is_once l")
    case True
    with Cons.prems have "l \<notin> set pre" by auto
    then have "emitter (unwrap_once b ev l) ev = pre @ ls"
      using True Cons.prems by (simp add: unwrap_once_def remove1_append)
    from Cons.IH [OF Cons.prems(1) r this] True Cons.prems(2) show ?thesis by simp
  next
    case False
    have "emitter (unwrap_once b ev l) ev = (pre @ [l]) @ ls"
      using False Cons.prems by (simp add: unwrap_once_def)
    moreover have "\<forall>x \<in> set (pre @ [l]). \<not> is_once x" using False Cons.prems by simp
    ultimately show ?thesis using Cons.IH [of "pre @ [l]"] r False Cons.prems(2) by simp
  qed
qed

lemma emit_drops_once:
  assumes a: "\<forall>l \<in> set (emitter b ev). invoke (listener l) p = Inr ()"
  shows "emitter (fst (snd (EventBus_emit b ev p))) ev
           = filter (\<lambda>l. \<not> is_once l) (emitter b ev)"
proof (cases "ev = ''error'' \<and> emitter b ev = []")
  case True
  then have "EventBus_emit b ev p = (Inl UnhandledError, b, [])"
    unfolding EventBus_emit_def by (rule if_P)
  moreover from True have "emitter b ev = []" by blast
  ultimately show ?thesis by simp
next
  case False
  then have "EventBus_emit b ev p = call_listeners (emitter b ev) ev p (b, [])"
    unfolding EventBus_emit_def by (rule if_not_P)
  then show ?thesis
    using call_listeners_bus [of "[]" "emitter b ev" p b ev "[]"] a by simp
qed

end
